theory Spec2Isabelle
  imports Complex_Main
begin

section \<open>Multi-head self-attention of the lecture notebook\<close>

text \<open>
  The development embeds the class \<^verbatim>\<open>SelfAttention\<close> of
  \<^verbatim>\<open>Transformer&OtherMonsters_Lecture.ipynb\<close>: its constructor
  \<^verbatim>\<open>__init__(self, embed_size, heads)\<close> and its method
  \<^verbatim>\<open>forward(self, x, mask=None)\<close>, together with the tensor operations of
  the library that the method calls (\<^verbatim>\<open>nn.Linear\<close>, \<^verbatim>\<open>chunk\<close>,
  \<^verbatim>\<open>view\<close>, \<^verbatim>\<open>transpose\<close>, \<^verbatim>\<open>@\<close>,
  \<^verbatim>\<open>masked_fill\<close>, \<^verbatim>\<open>softmax\<close>, \<^verbatim>\<open>reshape\<close>).

  Conventions of the embedding.
  \<^item> A tensor is its shape together with the function from indices to entries; only the
    entries at indices inside the shape are meaningful.
  \<^item> Entries are real numbers and arithmetic is exact. The code computes in 32-bit
    floating point: its results are those of the model up to rounding as long as no
    intermediate value leaves the range of that format, and may be infinite or NaN
    otherwise. Statements about shapes, exceptions and positions do not depend on the
    entries; statements about the size of an entry carry the hypothesis that the numbers
    involved stay in range (\<open>float_safe\<close> below).
  \<^item> Python integers are \<open>int\<close>; \<^verbatim>\<open>//\<close> is \<open>div\<close> (both round towards
    minus infinity).
  \<^item> Every exception the code can raise is a value of \<open>error\<close>, returned as \<open>Inl\<close>.
\<close>

subsection \<open>Exceptions\<close>

datatype error = ZeroDivisionError | RuntimeError | ValueError | TypeError

subsection \<open>Tensors\<close>

record tensor3 =
  t3_d0 :: nat
  t3_d1 :: nat
  t3_d2 :: nat
  t3_at :: "nat \<Rightarrow> nat \<Rightarrow> nat \<Rightarrow> real"

record tensor4 =
  t4_d0 :: nat
  t4_d1 :: nat
  t4_d2 :: nat
  t4_d3 :: nat
  t4_at :: "nat \<Rightarrow> nat \<Rightarrow> nat \<Rightarrow> nat \<Rightarrow> real"

definition numel3 :: "tensor3 \<Rightarrow> nat" where
  "numel3 t = t3_d0 t * t3_d1 t * t3_d2 t"

definition numel4 :: "tensor4 \<Rightarrow> nat" where
  "numel4 t = t4_d0 t * t4_d1 t * t4_d2 t * t4_d3 t"

text \<open>Entry number \<open>n\<close> in row-major order.\<close>

definition flat3 :: "tensor3 \<Rightarrow> nat \<Rightarrow> real" where
  "flat3 t n = t3_at t (n div (t3_d1 t * t3_d2 t)) (n div t3_d2 t mod t3_d1 t) (n mod t3_d2 t)"

definition flat4 :: "tensor4 \<Rightarrow> nat \<Rightarrow> real" where
  "flat4 t n =
     t4_at t (n div (t4_d1 t * t4_d2 t * t4_d3 t)) (n div (t4_d2 t * t4_d3 t) mod t4_d1 t)
       (n div t4_d3 t mod t4_d2 t) (n mod t4_d3 t)"

subsection \<open>\<^verbatim>\<open>nn.Linear\<close>\<close>

record linear =
  in_features :: nat
  out_features :: nat
  weight :: "nat \<Rightarrow> nat \<Rightarrow> real"
  bias :: "nat \<Rightarrow> real"

text \<open>
  \<^verbatim>\<open>nn.Linear(i, o)\<close> allocates a weight of shape \<open>(o, i)\<close> and a bias of shape
  \<open>(o)\<close> with \<^verbatim>\<open>torch.empty\<close>, in 4-byte entries. A size that does not fit a
  signed 64-bit integer makes the call raise \<^verbatim>\<open>TypeError\<close>, a negative size
  \<^verbatim>\<open>RuntimeError\<close>, and so does a tensor whose number of bytes exceeds
  \<open>2\<^sup>6\<^sup>3 - 1\<close> or what the allocator grants. The allocator's limit belongs to the machine
  and the initial values are drawn at random by the library, so the model takes both as
  arguments.
\<close>

definition int64_ok :: "int \<Rightarrow> bool" where
  "int64_ok n \<longleftrightarrow> - (2 ^ 63) \<le> n \<and> n < 2 ^ 63"

definition allocatable :: "nat \<Rightarrow> nat \<Rightarrow> bool" where
  "allocatable limit numel \<longleftrightarrow> 4 * numel \<le> min limit (2 ^ 63 - 1)"

definition Linear_init ::
    "nat \<Rightarrow> int \<Rightarrow> int \<Rightarrow> (nat \<Rightarrow> nat \<Rightarrow> real) \<Rightarrow> (nat \<Rightarrow> real) \<Rightarrow> error + linear" where
  "Linear_init limit i o' w b =
     (if \<not> int64_ok o' \<or> \<not> int64_ok i then Inl TypeError
      else if i < 0 \<or> o' < 0 then Inl RuntimeError
      else if \<not> allocatable limit (nat o' * nat i) then Inl RuntimeError
      else if \<not> allocatable limit (nat o') then Inl RuntimeError
      else Inr \<lparr>in_features = nat i, out_features = nat o', weight = w, bias = b\<rparr>)"

text \<open>Applying the layer to a rank-3 input: \<open>y = x W\<^sup>T + b\<close> on the last axis.\<close>

definition Linear_apply :: "linear \<Rightarrow> tensor3 \<Rightarrow> error + tensor3" where
  "Linear_apply l x =
     (if t3_d2 x \<noteq> in_features l then Inl RuntimeError
      else Inr \<lparr>t3_d0 = t3_d0 x, t3_d1 = t3_d1 x, t3_d2 = out_features l,
                t3_at = (\<lambda>i j c. (\<Sum>e<in_features l. t3_at x i j e * weight l c e) + bias l c)\<rparr>)"

subsection \<open>The constructor\<close>

text \<open>
  \<^verbatim>\<open>head_dim ** -0.5\<close>: Python raises \<^verbatim>\<open>ZeroDivisionError\<close> on base 0 and
  returns a complex number on a negative base (the principal value, \<open>- \<i> / \<surd>|n|\<close>).
\<close>

datatype scalar = Float real | ComplexNum complex

definition pow_neg_half :: "int \<Rightarrow> error + scalar" where
  "pow_neg_half n =
     (if n = 0 then Inl ZeroDivisionError
      else if 0 < n then Inr (Float (real_of_int n powr (- (1 / 2))))
      else Inr (ComplexNum (Complex 0 (- (real_of_int (- n) powr (- (1 / 2)))))))"

text \<open>
  What the environment supplies to the constructor: the number of bytes the allocator
  grants to one tensor, and the initial values of the two layers.
\<close>

record init_values =
  alloc_limit :: nat
  qkv_weight :: "nat \<Rightarrow> nat \<Rightarrow> real"
  qkv_bias :: "nat \<Rightarrow> real"
  out_weight :: "nat \<Rightarrow> nat \<Rightarrow> real"
  out_bias :: "nat \<Rightarrow> real"

record kernel =
  embed_size :: int
  heads :: int
  head_dim :: int
  to_qkv :: linear
  scale :: scalar
  to_out :: linear

definition SelfAttention_init :: "int \<Rightarrow> int \<Rightarrow> init_values \<Rightarrow> error + kernel" where
  "SelfAttention_init es hs iv =
     (if hs = 0 then Inl ZeroDivisionError
      else
        (case Linear_init (alloc_limit iv) es (3 * es) (qkv_weight iv) (qkv_bias iv) of
           Inl e \<Rightarrow> Inl e
         | Inr tq \<Rightarrow>
             (case pow_neg_half (es div hs) of
                Inl e \<Rightarrow> Inl e
              | Inr sc \<Rightarrow>
                  (case Linear_init (alloc_limit iv) es es (out_weight iv) (out_bias iv) of
                     Inl e \<Rightarrow> Inl e
                   | Inr tout \<Rightarrow>
                       Inr \<lparr>embed_size = es, heads = hs, head_dim = es div hs,
                            to_qkv = tq, scale = sc, to_out = tout\<rparr>))))"

subsection \<open>Shape operations\<close>

text \<open>
  The size inference of \<^verbatim>\<open>view\<close> and \<^verbatim>\<open>reshape\<close>: a size below \<open>-1\<close> is
  invalid, at most one size may be \<open>-1\<close> (it is then inferred from the number of
  elements), and the sizes must multiply to the number of elements.
\<close>

definition infer_size :: "int list \<Rightarrow> nat \<Rightarrow> error + nat list" where
  "infer_size shape numel =
     (if \<exists>d\<in>set shape. d < - 1 then Inl RuntimeError
      else if 1 < length (filter (\<lambda>d. d = - 1) shape) then Inl RuntimeError
      else
        (let newsize = nat (prod_list (filter (\<lambda>d. d \<noteq> - 1) shape)) in
           if - 1 \<in> set shape then
             (if 0 < newsize \<and> numel mod newsize = 0
              then Inr (map (\<lambda>d. if d = - 1 then numel div newsize else nat d) shape)
              else Inl RuntimeError)
           else if numel = newsize then Inr (map nat shape)
           else Inl RuntimeError))"

text \<open>\<^verbatim>\<open>t.view(a, b, c, d)\<close> on a rank-3 tensor keeps the row-major order of the entries.\<close>

definition view4 :: "tensor3 \<Rightarrow> int \<Rightarrow> int \<Rightarrow> int \<Rightarrow> int \<Rightarrow> error + tensor4" where
  "view4 t a b c d =
     (case infer_size [a, b, c, d] (numel3 t) of
        Inl e \<Rightarrow> Inl e
      | Inr sz \<Rightarrow>
          Inr \<lparr>t4_d0 = sz ! 0, t4_d1 = sz ! 1, t4_d2 = sz ! 2, t4_d3 = sz ! 3,
               t4_at = (\<lambda>i j k l. flat3 t (((i * (sz ! 1) + j) * (sz ! 2) + k) * (sz ! 3) + l))\<rparr>)"

text \<open>\<^verbatim>\<open>t.reshape(a, b, c)\<close> on a rank-4 tensor.\<close>

definition reshape3 :: "tensor4 \<Rightarrow> int \<Rightarrow> int \<Rightarrow> int \<Rightarrow> error + tensor3" where
  "reshape3 t a b c =
     (case infer_size [a, b, c] (numel4 t) of
        Inl e \<Rightarrow> Inl e
      | Inr sz \<Rightarrow>
          Inr \<lparr>t3_d0 = sz ! 0, t3_d1 = sz ! 1, t3_d2 = sz ! 2,
               t3_at = (\<lambda>i j k. flat4 t ((i * (sz ! 1) + j) * (sz ! 2) + k))\<rparr>)"

text \<open>\<^verbatim>\<open>t.transpose(1, 2)\<close> and \<^verbatim>\<open>t.transpose(-2, -1)\<close> on a rank-4 tensor.\<close>

definition transpose_1_2 :: "tensor4 \<Rightarrow> tensor4" where
  "transpose_1_2 t =
     \<lparr>t4_d0 = t4_d0 t, t4_d1 = t4_d2 t, t4_d2 = t4_d1 t, t4_d3 = t4_d3 t,
      t4_at = (\<lambda>i j k l. t4_at t i k j l)\<rparr>"

definition transpose_last :: "tensor4 \<Rightarrow> tensor4" where
  "transpose_last t =
     \<lparr>t4_d0 = t4_d0 t, t4_d1 = t4_d1 t, t4_d2 = t4_d3 t, t4_d3 = t4_d2 t,
      t4_at = (\<lambda>i j k l. t4_at t i j l k)\<rparr>"

text \<open>
  \<^verbatim>\<open>t.chunk(3, dim=-1)\<close>: pieces of \<open>\<lceil>n / 3\<rceil>\<close> columns each, the last one possibly
  shorter, so fewer than three pieces when \<open>n\<close> is 1, 2 or 4; three empty pieces when
  \<open>n = 0\<close>.
\<close>

definition chunk3 :: "tensor3 \<Rightarrow> tensor3 list" where
  "chunk3 t =
     (let n = t3_d2 t; c = (n + 2) div 3 in
        if c = 0 then replicate 3 (t\<lparr>t3_d2 := 0\<rparr>)
        else map (\<lambda>p. \<lparr>t3_d0 = t3_d0 t, t3_d1 = t3_d1 t, t3_d2 = min c (n - p * c),
                       t3_at = (\<lambda>i j e. t3_at t i j (p * c + e))\<rparr>)
               [0 ..< (n + c - 1) div c])"

subsection \<open>Broadcasting, matrix product, masking, softmax\<close>

text \<open>Two sizes broadcast when they are equal or one of them is 1.\<close>

definition bdim :: "nat \<Rightarrow> nat \<Rightarrow> nat option" where
  "bdim m n = (if m = n then Some m else if m = 1 then Some n else if n = 1 then Some m else None)"

text \<open>The index into an operand whose size on that axis is \<open>m\<close>.\<close>

definition bidx :: "nat \<Rightarrow> nat \<Rightarrow> nat" where
  "bidx m i = (if m = 1 then 0 else i)"

text \<open>
  \<^verbatim>\<open>a @ b\<close> on rank-4 tensors: a matrix product on the last two axes, the two leading
  axes broadcast.
\<close>

definition matmul4 :: "tensor4 \<Rightarrow> tensor4 \<Rightarrow> error + tensor4" where
  "matmul4 a b =
     (if t4_d3 a \<noteq> t4_d2 b then Inl RuntimeError
      else
        (case (bdim (t4_d0 a) (t4_d0 b), bdim (t4_d1 a) (t4_d1 b)) of
           (Some n0, Some n1) \<Rightarrow>
             Inr \<lparr>t4_d0 = n0, t4_d1 = n1, t4_d2 = t4_d2 a, t4_d3 = t4_d3 b,
                  t4_at = (\<lambda>i h s t. \<Sum>c<t4_d3 a.
                      t4_at a (bidx (t4_d0 a) i) (bidx (t4_d1 a) h) s c
                    * t4_at b (bidx (t4_d0 b) i) (bidx (t4_d1 b) h) c t)\<rparr>
         | _ \<Rightarrow> Inl RuntimeError))"

text \<open>
  \<^verbatim>\<open>t * scale\<close>. A complex \<^verbatim>\<open>scale\<close> gives a complex tensor, on which the
  softmax that follows is not implemented; the model raises at the product. (A kernel
  built by the constructor has a complex \<^verbatim>\<open>scale\<close> only when \<^verbatim>\<open>head_dim\<close>
  is negative, and \<^verbatim>\<open>view\<close> has raised before.)
\<close>

definition mul_scalar :: "tensor4 \<Rightarrow> scalar \<Rightarrow> error + tensor4" where
  "mul_scalar t sc =
     (case sc of
        Float r \<Rightarrow> Inr (t\<lparr>t4_at := (\<lambda>i h s u. t4_at t i h s u * r)\<rparr>)
      | ComplexNum z \<Rightarrow> Inl RuntimeError)"

text \<open>
  \<^verbatim>\<open>t.masked_fill(mask == 0, v)\<close>. A mask of rank below 4 is aligned to the right,
  that is, it is the rank-4 mask with leading sizes 1; masks of higher rank are outside
  the model. A Boolean mask is the numeric mask with 1 for true and 0 for false. The mask
  and the tensor are broadcast against each other.
\<close>

definition masked_fill :: "tensor4 \<Rightarrow> tensor4 \<Rightarrow> real \<Rightarrow> error + tensor4" where
  "masked_fill t m v =
     (case (bdim (t4_d0 t) (t4_d0 m), bdim (t4_d1 t) (t4_d1 m),
            bdim (t4_d2 t) (t4_d2 m), bdim (t4_d3 t) (t4_d3 m)) of
        (Some n0, Some n1, Some n2, Some n3) \<Rightarrow>
          Inr \<lparr>t4_d0 = n0, t4_d1 = n1, t4_d2 = n2, t4_d3 = n3,
               t4_at = (\<lambda>i h s u.
                 if t4_at m (bidx (t4_d0 m) i) (bidx (t4_d1 m) h)
                      (bidx (t4_d2 m) s) (bidx (t4_d3 m) u) = 0
                 then v
                 else t4_at t (bidx (t4_d0 t) i) (bidx (t4_d1 t) h)
                        (bidx (t4_d2 t) s) (bidx (t4_d3 t) u))\<rparr>
      | _ \<Rightarrow> Inl RuntimeError)"

text \<open>\<^verbatim>\<open>torch.softmax(t, dim=-1)\<close>.\<close>

definition softmax :: "tensor4 \<Rightarrow> tensor4" where
  "softmax t = t\<lparr>t4_at := (\<lambda>i h s u. exp (t4_at t i h s u) / (\<Sum>w<t4_d3 t. exp (t4_at t i h s w)))\<rparr>"

subsection \<open>The forward pass\<close>

text \<open>
  The local variables of \<^verbatim>\<open>forward\<close>, kept so that properties of the intermediate
  tensors can be stated.
\<close>

record locals =
  l_q :: tensor4
  l_k :: tensor4
  l_v :: tensor4
  l_scores :: tensor4
  l_attn_weights :: tensor4
  l_context :: tensor4
  l_out :: tensor3

text \<open>
  \<^verbatim>\<open>map(lambda t: t.view(batch_size, seq_len, heads, head_dim).transpose(1, 2), qkv)\<close>,
  evaluated from left to right; the first exception ends it.
\<close>

fun split_heads :: "kernel \<Rightarrow> nat \<Rightarrow> nat \<Rightarrow> tensor3 list \<Rightarrow> error + tensor4 list" where
  "split_heads kn batch_size seq_len [] = Inr []"
| "split_heads kn batch_size seq_len (t # ts) =
     (case view4 t (int batch_size) (int seq_len) (heads kn) (head_dim kn) of
        Inl e \<Rightarrow> Inl e
      | Inr u \<Rightarrow>
          (case split_heads kn batch_size seq_len ts of
             Inl e \<Rightarrow> Inl e
           | Inr us \<Rightarrow> Inr (transpose_1_2 u # us)))"

definition forward_locals :: "kernel \<Rightarrow> tensor3 \<Rightarrow> tensor4 option \<Rightarrow> error + locals" where
  "forward_locals kn x mask' =
     (let batch_size = t3_d0 x; seq_len = t3_d1 x in
      case Linear_apply (to_qkv kn) x of
        Inl e \<Rightarrow> Inl e
      | Inr y \<Rightarrow>
      (case split_heads kn batch_size seq_len (chunk3 y) of
        Inl e \<Rightarrow> Inl e
      | Inr qkv \<Rightarrow>
      if length qkv \<noteq> 3 then Inl ValueError
      else let q = qkv ! 0; k = qkv ! 1; v = qkv ! 2 in
      (case matmul4 q (transpose_last k) of
        Inl e \<Rightarrow> Inl e
      | Inr qk \<Rightarrow>
      (case mul_scalar qk (scale kn) of
        Inl e \<Rightarrow> Inl e
      | Inr scores0 \<Rightarrow>
      (case (case mask' of None \<Rightarrow> Inr scores0
                        | Some m \<Rightarrow> masked_fill scores0 m (- 1000000000)) of
        Inl e \<Rightarrow> Inl e
      | Inr scores \<Rightarrow>
      let attn_weights = softmax scores in
      (case matmul4 attn_weights v of
        Inl e \<Rightarrow> Inl e
      | Inr context \<Rightarrow>
      (case reshape3 (transpose_1_2 context) (int batch_size) (int seq_len) (embed_size kn) of
        Inl e \<Rightarrow> Inl e
      | Inr merged \<Rightarrow>
      (case Linear_apply (to_out kn) merged of
        Inl e \<Rightarrow> Inl e
      | Inr out \<Rightarrow>
          Inr \<lparr>l_q = q, l_k = k, l_v = v, l_scores = scores, l_attn_weights = attn_weights,
               l_context = context, l_out = out\<rparr>))))))))"

definition forward :: "kernel \<Rightarrow> tensor3 \<Rightarrow> tensor4 option \<Rightarrow> error + tensor3" where
  "forward kn x mask' = map_sum id l_out (forward_locals kn x mask')"

subsection \<open>Calling the method\<close>

text \<open>
  A call \<^verbatim>\<open>sa(x, mask, **kwargs)\<close>. The signature is
  \<^verbatim>\<open>forward(self, x, mask=None)\<close>, so binding any further keyword argument raises
  \<^verbatim>\<open>TypeError\<close> before the body runs.
\<close>

definition call_forward ::
    "kernel \<Rightarrow> tensor3 \<Rightarrow> tensor4 option \<Rightarrow> (string \<times> bool) list \<Rightarrow> error + tensor3" where
  "call_forward kn x mask' kwargs = (if kwargs \<noteq> [] then Inl TypeError else forward kn x mask')"

subsection \<open>Predicates and quantities used in the statements\<close>

text \<open>
  A mask fits a score tensor of shape \<open>(n0, n1, n2, n3)\<close> when each of its sizes is 1
  or the corresponding size: broadcasting it leaves the shape of the scores unchanged.
\<close>

definition mask_fits :: "tensor4 \<Rightarrow> nat \<Rightarrow> nat \<Rightarrow> nat \<Rightarrow> nat \<Rightarrow> bool" where
  "mask_fits m n0 n1 n2 n3 \<longleftrightarrow>
     (t4_d0 m = 1 \<or> t4_d0 m = n0) \<and> (t4_d1 m = 1 \<or> t4_d1 m = n1) \<and>
     (t4_d2 m = 1 \<or> t4_d2 m = n2) \<and> (t4_d3 m = 1 \<or> t4_d3 m = n3)"

text \<open>A mask can be broadcast against a tensor of shape \<open>(n0, n1, n2, n3)\<close>.\<close>

definition broadcastable :: "tensor4 \<Rightarrow> nat \<Rightarrow> nat \<Rightarrow> nat \<Rightarrow> nat \<Rightarrow> bool" where
  "broadcastable m n0 n1 n2 n3 \<longleftrightarrow>
     bdim n0 (t4_d0 m) \<noteq> None \<and> bdim n1 (t4_d1 m) \<noteq> None \<and>
     bdim n2 (t4_d2 m) \<noteq> None \<and> bdim n3 (t4_d3 m) \<noteq> None"

text \<open>
  The entry that \<^verbatim>\<open>masked_fill\<close> reads for position \<open>(i, h, s, u)\<close> of the scores,
  the mask being broadcast against them, is zero: key \<open>u\<close> is forbidden to query \<open>s\<close> of
  head \<open>h\<close> of batch element \<open>i\<close>.
\<close>

definition forbidden :: "tensor4 \<Rightarrow> nat \<Rightarrow> nat \<Rightarrow> nat \<Rightarrow> nat \<Rightarrow> bool" where
  "forbidden m i h s u \<longleftrightarrow>
     t4_at m (bidx (t4_d0 m) i) (bidx (t4_d1 m) h) (bidx (t4_d2 m) s) (bidx (t4_d3 m) u) = 0"

text \<open>
  The mask as the specification describes it: an array aligned to \<open>(S, S)\<close>, or to
  \<open>(B, S, S)\<close> with one \<open>(S, S)\<close> array for each batch element, in which 0 marks a key
  that the query may not attend to.
\<close>

datatype mask_arg =
    Mask2 nat nat "nat \<Rightarrow> nat \<Rightarrow> real"
  | Mask3 nat nat nat "nat \<Rightarrow> nat \<Rightarrow> nat \<Rightarrow> real"

text \<open>
  Key \<open>u\<close> is forbidden to query \<open>s\<close> of batch element \<open>i\<close>, in the words of the
  specification; an axis of size 1 is broadcast.
\<close>

fun spec_forbidden :: "mask_arg \<Rightarrow> nat \<Rightarrow> nat \<Rightarrow> nat \<Rightarrow> bool" where
  "spec_forbidden (Mask2 a b f) i s u \<longleftrightarrow> f (bidx a s) (bidx b u) = 0"
| "spec_forbidden (Mask3 n a b f) i s u \<longleftrightarrow> f (bidx n i) (bidx a s) (bidx b u) = 0"

text \<open>One mask for all batch elements: shape \<open>(S, S)\<close> or \<open>(1, S, S)\<close>.\<close>

fun shared_mask :: "mask_arg \<Rightarrow> bool" where
  "shared_mask (Mask2 a b f) \<longleftrightarrow> True"
| "shared_mask (Mask3 n a b f) \<longleftrightarrow> n = 1"

text \<open>
  The tensor that such a mask is when it is passed to \<^verbatim>\<open>forward\<close>: broadcasting aligns
  its axes with the last axes of the scores, so the first axis of a rank-3 mask meets the
  axis of the heads.
\<close>

fun mask_tensor :: "mask_arg \<Rightarrow> tensor4" where
  "mask_tensor (Mask2 a b f) =
     \<lparr>t4_d0 = 1, t4_d1 = 1, t4_d2 = a, t4_d3 = b, t4_at = (\<lambda>i h s u. f s u)\<rparr>"
| "mask_tensor (Mask3 n a b f) =
     \<lparr>t4_d0 = 1, t4_d1 = n, t4_d2 = a, t4_d3 = b, t4_at = (\<lambda>i h s u. f h s u)\<rparr>"

text \<open>The attention weight that query \<open>s\<close> of head \<open>h\<close> puts on its forbidden keys.\<close>

definition forbidden_mass :: "mask_arg \<Rightarrow> locals \<Rightarrow> nat \<Rightarrow> nat \<Rightarrow> nat \<Rightarrow> real" where
  "forbidden_mass mk L i h s =
     (\<Sum>u | u < t4_d3 (l_attn_weights L) \<and> spec_forbidden mk i s u.
        t4_at (l_attn_weights L) i h s u)"

text \<open>
  A magnitude that 32-bit floating point holds with room to spare (its largest finite
  number is about \<open>3.4 * 10\<^sup>3\<^sup>8\<close>).
\<close>

definition float_safe :: real where
  "float_safe = 10 ^ 38"

text \<open>The absolute values of the terms of one entry of \<^verbatim>\<open>nn.Linear\<close>, added up.\<close>

definition Linear_abs :: "linear \<Rightarrow> tensor3 \<Rightarrow> nat \<Rightarrow> nat \<Rightarrow> nat \<Rightarrow> real" where
  "Linear_abs l x i j c =
     (\<Sum>e<in_features l. \<bar>t3_at x i j e * weight l c e\<bar>) + \<bar>bias l c\<bar>"

text \<open>
  The sums of the forward pass have few terms. A 32-bit floating-point evaluation of a sum
  of \<open>n \<le> 2\<^sup>2\<^sup>2\<close> terms differs from the exact sum by at most \<open>n / 2\<^sup>2\<^sup>3\<close> times the sum of the
  absolute values of the terms, in whatever order the terms are added, as long as no
  intermediate value overflows; and none overflows when these absolute values add up to at
  most \<open>float_safe\<close>.
\<close>

definition sizes_in_range :: "kernel \<Rightarrow> tensor3 \<Rightarrow> bool" where
  "sizes_in_range kn x \<longleftrightarrow>
     2 * nat (embed_size kn) + nat (head_dim kn) + t3_d1 x + 8 \<le> 2 ^ 22"

text \<open>
  The terms of the dot product of query \<open>s\<close> and key \<open>u\<close> of head \<open>h\<close>, each factor
  replaced by the sum of the absolute values of its own terms.
\<close>

definition dot_abs :: "kernel \<Rightarrow> tensor3 \<Rightarrow> nat \<Rightarrow> nat \<Rightarrow> nat \<Rightarrow> nat \<Rightarrow> real" where
  "dot_abs kn x i h s u =
     (\<Sum>c<nat (head_dim kn).
        Linear_abs (to_qkv kn) x i s (h * nat (head_dim kn) + c)
        * Linear_abs (to_qkv kn) x i u (nat (embed_size kn) + (h * nat (head_dim kn) + c)))"

text \<open>
  What rounding can change in the score of query \<open>s\<close> and key \<open>u\<close>: each of its terms
  goes through the two projections, the dot product and the scaling, which is a factor of
  at most 1.
\<close>

definition rounding_allowance :: "kernel \<Rightarrow> tensor3 \<Rightarrow> nat \<Rightarrow> nat \<Rightarrow> nat \<Rightarrow> nat \<Rightarrow> real" where
  "rounding_allowance kn x i h s u =
     real (2 * nat (embed_size kn) + nat (head_dim kn) + 8) / 2 ^ 23 * dot_abs kn x i h s u"

text \<open>
  The numbers that enter the scores of row \<open>(i, h, s)\<close> at its allowed keys stay in
  range: the query vector of the row, the key vector of each allowed key, and the terms of
  their dot product.
\<close>

definition scores_in_range :: "kernel \<Rightarrow> tensor3 \<Rightarrow> mask_arg \<Rightarrow> nat \<Rightarrow> nat \<Rightarrow> nat \<Rightarrow> bool" where
  "scores_in_range kn x mk i h s \<longleftrightarrow>
     sizes_in_range kn x \<and>
     (\<forall>c<nat (head_dim kn).
        Linear_abs (to_qkv kn) x i s (h * nat (head_dim kn) + c) \<le> float_safe) \<and>
     (\<forall>u<t3_d1 x. \<not> spec_forbidden mk i s u \<longrightarrow>
        (\<forall>c<nat (head_dim kn).
           Linear_abs (to_qkv kn) x i u (nat (embed_size kn) + (h * nat (head_dim kn) + c))
             \<le> float_safe) \<and>
        dot_abs kn x i h s u \<le> float_safe)"

text \<open>
  A score that is above the sentinel by 200 and by the rounding allowance: in 32-bit
  floating point it is still more than 104 above the sentinel, so the exponential of the
  difference is rounded to zero.
\<close>

definition clear_of_sentinel :: "kernel \<Rightarrow> tensor3 \<Rightarrow> locals \<Rightarrow> nat \<Rightarrow> nat \<Rightarrow> nat \<Rightarrow> nat \<Rightarrow> bool" where
  "clear_of_sentinel kn x L i h s u \<longleftrightarrow>
     - 1000000000 + 200 + rounding_allowance kn x i h s u \<le> t4_at (l_scores L) i h s u"

text \<open>The value vectors that row \<open>(i, h)\<close> aggregates stay in range at component \<open>d\<close>.\<close>

definition values_in_range :: "kernel \<Rightarrow> tensor3 \<Rightarrow> nat \<Rightarrow> nat \<Rightarrow> nat \<Rightarrow> bool" where
  "values_in_range kn x i h d \<longleftrightarrow>
     sizes_in_range kn x \<and>
     (\<forall>c<t3_d1 x.
        Linear_abs (to_qkv kn) x i c
          (2 * nat (embed_size kn) + (h * nat (head_dim kn) + d)) \<le> float_safe)"

text \<open>The input with its sequence axis permuted, \<^verbatim>\<open>x[:, p, :]\<close>.\<close>

definition permute_seq :: "(nat \<Rightarrow> nat) \<Rightarrow> tensor3 \<Rightarrow> tensor3" where
  "permute_seq p x = x\<lparr>t3_at := (\<lambda>i s e. t3_at x i (p s) e)\<rparr>"

subsection \<open>Concrete kernels, inputs and masks\<close>

text \<open>
  The inputs at which the theorems are instantiated: kernels built by the constructor
  from given initial weights, embedding batches (all ones, with the position as entry,
  with a large entry, with no position, with 5 features) and masks.
\<close>

definition iv0 :: init_values where
  "iv0 = \<lparr>alloc_limit = 2 ^ 30, qkv_weight = (\<lambda>c e. 0), qkv_bias = (\<lambda>c. 0),
          out_weight = (\<lambda>c e. 0), out_bias = (\<lambda>c. 0)\<rparr>"

definition iv_qk :: init_values where
  "iv_qk = \<lparr>alloc_limit = 2 ^ 30,
            qkv_weight = (\<lambda>c e. if c = 0 then 1 else if c = 1 then - 1 else 0),
            qkv_bias = (\<lambda>c. 0), out_weight = (\<lambda>c e. 0), out_bias = (\<lambda>c. 0)\<rparr>"

definition kn_8_2 :: kernel where
  "kn_8_2 = projr (SelfAttention_init 8 2 iv0)"

definition kn_1_1 :: kernel where
  "kn_1_1 = projr (SelfAttention_init 1 1 iv0)"

definition kn_qk :: kernel where
  "kn_qk = projr (SelfAttention_init 1 1 iv_qk)"

definition x_ones :: tensor3 where
  "x_ones = \<lparr>t3_d0 = 1, t3_d1 = 3, t3_d2 = 8, t3_at = (\<lambda>i s e. 1)\<rparr>"

definition x_ramp :: tensor3 where
  "x_ramp = \<lparr>t3_d0 = 1, t3_d1 = 3, t3_d2 = 8, t3_at = (\<lambda>i s e. real s)\<rparr>"

definition x_large :: tensor3 where
  "x_large = \<lparr>t3_d0 = 1, t3_d1 = 2, t3_d2 = 1,
              t3_at = (\<lambda>i s e. if s = 0 then 100000 else 0)\<rparr>"

definition x_empty :: tensor3 where
  "x_empty = \<lparr>t3_d0 = 1, t3_d1 = 0, t3_d2 = 8, t3_at = (\<lambda>i s e. 0)\<rparr>"

definition x_narrow :: tensor3 where
  "x_narrow = \<lparr>t3_d0 = 1, t3_d1 = 3, t3_d2 = 5, t3_at = (\<lambda>i s e. 1)\<rparr>"

definition mask_row0_forbidden :: tensor4 where
  "mask_row0_forbidden =
     \<lparr>t4_d0 = 1, t4_d1 = 1, t4_d2 = 3, t4_d3 = 3, t4_at = (\<lambda>i h s u. if s = 0 then 0 else 1)\<rparr>"

definition mask_key0_only :: tensor4 where
  "mask_key0_only =
     \<lparr>t4_d0 = 1, t4_d1 = 1, t4_d2 = 2, t4_d3 = 2, t4_at = (\<lambda>i h s u. if u = 0 then 1 else 0)\<rparr>"

definition key0_only :: mask_arg where
  "key0_only = Mask2 2 2 (\<lambda>s u. if u = 0 then 1 else 0)"

definition all_zero3 :: mask_arg where
  "all_zero3 = Mask3 3 3 3 (\<lambda>b s u. 0)"

definition x_three :: tensor3 where
  "x_three = \<lparr>t3_d0 = 3, t3_d1 = 3, t3_d2 = 8, t3_at = (\<lambda>i s e. 1)\<rparr>"

definition per_batch_mask :: mask_arg where
  "per_batch_mask = Mask3 2 2 2 (\<lambda>b s u. if b = 1 \<and> u = 1 then 0 else 1)"

definition x_pair :: tensor3 where
  "x_pair = \<lparr>t3_d0 = 2, t3_d1 = 2, t3_d2 = 8, t3_at = (\<lambda>i s e. 1)\<rparr>"

definition swap01 :: "nat \<Rightarrow> nat" where
  "swap01 n = (if n = 0 then 1 else if n = 1 then 0 else n)"

section \<open>Properties\<close>

subsection \<open>The constructor\<close>

text \<open>
  Claim C5, as amended. The constructor raises whenever \<open>heads\<close> is 0
  (\<^verbatim>\<open>ZeroDivisionError\<close> from \<^verbatim>\<open>//\<close>) or \<open>embed_size\<close> is not positive:
  a negative \<open>embed_size\<close> makes \<^verbatim>\<open>nn.Linear\<close> raise \<^verbatim>\<open>RuntimeError\<close>
  (\<^verbatim>\<open>TypeError\<close> when \<open>3 * embed_size\<close> does not fit 64 bits), and \<open>embed_size = 0\<close>
  makes \<^verbatim>\<open>head_dim ** -0.5\<close> raise \<^verbatim>\<open>ZeroDivisionError\<close>.
\<close>

theorem init_raises:
  "(hs = 0 \<longrightarrow> SelfAttention_init es hs iv = Inl ZeroDivisionError)
     \<and> (hs \<noteq> 0 \<and> es < 0 \<longrightarrow>
          SelfAttention_init es hs iv
            = Inl (if int64_ok (3 * es) then RuntimeError else TypeError))
     \<and> (hs \<noteq> 0 \<and> es = 0 \<longrightarrow> SelfAttention_init es hs iv = Inl ZeroDivisionError)"
  by (auto simp: SelfAttention_init_def Linear_init_def pow_neg_half_def int64_ok_def
        allocatable_def)

text \<open>
  The theorem at \<^verbatim>\<open>SelfAttention(8, 0)\<close>, \<^verbatim>\<open>SelfAttention(-8, 2)\<close> and
  \<^verbatim>\<open>SelfAttention(0, 4)\<close>.
\<close>

theorem init_raises_witness:
  "SelfAttention_init 8 0 iv0 = Inl ZeroDivisionError
     \<and> SelfAttention_init (- 8) 2 iv0 = Inl RuntimeError
     \<and> SelfAttention_init 0 4 iv0 = Inl ZeroDivisionError"
  using init_raises [of 0 8 iv0] init_raises [of 2 "- 8" iv0] init_raises [of 4 0 iv0]
  by (simp add: int64_ok_def)

text \<open>
  Claim C5 as stated fails: \<^verbatim>\<open>SelfAttention(8, 3)\<close> raises nothing and returns a
  kernel whose \<^verbatim>\<open>head_dim\<close> is 2.
\<close>

theorem init_8_3_succeeds:
  "map_sum id head_dim (SelfAttention_init 8 3 iv0) = Inr 2"
  by (simp add: SelfAttention_init_def Linear_init_def pow_neg_half_def int64_ok_def
        allocatable_def iv0_def)

text \<open>Nor is a negative \<open>heads\<close> rejected: \<^verbatim>\<open>SelfAttention(8, -2)\<close> returns a kernel.\<close>

lemma init_8_neg2_succeeds:
  "map_sum id head_dim (SelfAttention_init 8 (- 2) iv0) = Inr (- 4)"
  by (simp add: SelfAttention_init_def Linear_init_def pow_neg_half_def int64_ok_def
        allocatable_def iv0_def)

lemma init_InrD:
  assumes "SelfAttention_init es hs iv = Inr kn"
  shows "hs \<noteq> 0 \<and> 0 \<le> es \<and> es div hs \<noteq> 0 \<and>
     kn = \<lparr>embed_size = es, heads = hs, head_dim = es div hs,
           to_qkv = \<lparr>in_features = nat es, out_features = nat (3 * es),
                     weight = qkv_weight iv, bias = qkv_bias iv\<rparr>,
           scale = (if 0 < es div hs then Float (real_of_int (es div hs) powr (- (1 / 2)))
                    else ComplexNum (Complex 0 (- (real_of_int (- (es div hs)) powr (- (1 / 2)))))),
           to_out = \<lparr>in_features = nat es, out_features = nat es,
                     weight = out_weight iv, bias = out_bias iv\<rparr>\<rparr>"
  using assms
  by (auto simp: SelfAttention_init_def Linear_init_def pow_neg_half_def split: if_splits)

lemma init_valid:
  assumes "SelfAttention_init (int (H * D)) (int H) iv = Inr kn" "0 < H" "0 < D"
  shows "kn = \<lparr>embed_size = int (H * D), heads = int H, head_dim = int D,
           to_qkv = \<lparr>in_features = H * D, out_features = 3 * (H * D),
                     weight = qkv_weight iv, bias = qkv_bias iv\<rparr>,
           scale = Float (real D powr (- (1 / 2))),
           to_out = \<lparr>in_features = H * D, out_features = H * D,
                     weight = out_weight iv, bias = out_bias iv\<rparr>\<rparr>"
proof -
  have d: "int (H * D) div int H = int D" using assms(2) by simp
  have n3: "nat (3 * int (H * D)) = 3 * (H * D)" by (simp add: nat_mult_distrib)
  have n1: "nat (int (H * D)) = H * D" by (simp only: nat_int)
  have r: "real_of_int (int D) = real D" by simp
  from init_InrD [OF assms(1)] show ?thesis
    unfolding d n3 n1 r using assms(3) by (simp del: of_nat_mult)
qed

lemma valid_config_nat:
  fixes es hs :: int
  assumes "0 < es" "0 < hs" "hs dvd es"
  obtains H D :: nat where "0 < H" "0 < D" "es = int (H * D)" "hs = int H"
    "H = nat hs" "D = nat (es div hs)"
proof -
  define H where "H = nat hs"
  define D where "D = nat (es div hs)"
  have hs: "hs = int H" using assms(2) by (simp add: H_def)
  have q: "0 < es div hs" using assms by (simp add: pos_imp_zdiv_pos_iff zdvd_imp_le)
  have d: "es div hs = int D" using q by (simp add: D_def)
  have "es = hs * (es div hs)" using assms(3) by simp
  then have es: "es = int (H * D)" using hs d by simp
  show ?thesis
  proof (rule that [of H D])
    show "0 < H" using assms(2) by (simp add: H_def)
    show "0 < D" using q by (simp add: D_def)
  qed (fact es hs H_def D_def)+
qed

lemma init_kn_8_2: "SelfAttention_init 8 2 iv0 = Inr kn_8_2"
  by (simp add: kn_8_2_def SelfAttention_init_def Linear_init_def pow_neg_half_def int64_ok_def
        allocatable_def iv0_def iv_qk_def)

lemma init_kn_1_1: "SelfAttention_init 1 1 iv0 = Inr kn_1_1"
  by (simp add: kn_1_1_def SelfAttention_init_def Linear_init_def pow_neg_half_def int64_ok_def
        allocatable_def iv0_def iv_qk_def)

lemma init_kn_qk: "SelfAttention_init 1 1 iv_qk = Inr kn_qk"
  by (simp add: kn_qk_def SelfAttention_init_def Linear_init_def pow_neg_half_def int64_ok_def
        allocatable_def iv0_def iv_qk_def)

subsection \<open>Shapes and indices\<close>

lemma infer_size_nonneg:
  assumes "\<forall>d\<in>set shape. 0 \<le> d"
  shows "infer_size shape n =
           (if n = nat (prod_list shape) then Inr (map nat shape) else Inl RuntimeError)"
proof -
  have a: "\<not> (\<exists>d\<in>set shape. d < - 1)" using assms by force
  have b: "filter (\<lambda>d. d = - 1) shape = []" using assms by (auto simp: filter_empty_conv)
  have c: "filter (\<lambda>d. d \<noteq> - 1) shape = shape" using assms by (auto simp: filter_id_conv)
  have d: "- 1 \<notin> set shape" using assms by force
  show ?thesis unfolding infer_size_def using a d by (simp add: b c Let_def)
qed

lemma infer_size4:
  "infer_size [int a, int b, int c, int d] n =
     (if n = a * b * c * d then Inr [a, b, c, d] else Inl RuntimeError)"
proof -
  have "nat (int a * (int b * (int c * int d))) = a * b * c * d"
    by (simp add: nat_mult_distrib mult.assoc)
  then show ?thesis by (simp add: infer_size_nonneg)
qed

lemma infer_size3:
  "infer_size [int a, int b, int c] n =
     (if n = a * b * c then Inr [a, b, c] else Inl RuntimeError)"
proof -
  have "nat (int a * (int b * int c)) = a * b * c"
    by (simp add: nat_mult_distrib mult.assoc)
  then show ?thesis by (simp add: infer_size_nonneg)
qed

lemma infer_size_error: "infer_size shape n = Inl e \<Longrightarrow> e = RuntimeError"
  by (auto simp: infer_size_def Let_def split: if_splits)

lemma view4_nat:
  "view4 t (int a) (int b) (int c) (int d) =
     (if numel3 t = a * b * c * d
      then Inr \<lparr>t4_d0 = a, t4_d1 = b, t4_d2 = c, t4_d3 = d,
                t4_at = (\<lambda>i j k l. flat3 t (((i * b + j) * c + k) * d + l))\<rparr>
      else Inl RuntimeError)"
  by (simp add: view4_def infer_size4)

lemma reshape3_nat:
  "reshape3 t (int a) (int b) (int c) =
     (if numel4 t = a * b * c
      then Inr \<lparr>t3_d0 = a, t3_d1 = b, t3_d2 = c,
                t3_at = (\<lambda>i j k. flat4 t ((i * b + j) * c + k))\<rparr>
      else Inl RuntimeError)"
  by (simp add: reshape3_def infer_size3)

lemma view4_negative:
  assumes "c < 0" "d < 0"
  shows "view4 t a b c d = Inl RuntimeError"
proof (cases "c < - 1 \<or> d < - 1")
  case True
  then show ?thesis by (auto simp: view4_def infer_size_def)
next
  case False
  then have "c = - 1" "d = - 1" using assms by simp_all
  then show ?thesis by (simp add: view4_def infer_size_def)
qed

lemma flat3_split:
  assumes "t3_d1 t = S" "t3_d2 t = H * D" "s < S" "h < H" "d < D"
  shows "flat3 t (((i * S + s) * H + h) * D + d) = t3_at t i s (h * D + d)"
proof -
  have lt: "h * D + d < H * D"
  proof -
    have "h * D + d < h * D + D" using assms by simp
    also have "\<dots> = Suc h * D" by simp
    also have "\<dots> \<le> H * D" using assms by (intro mult_le_mono1) simp
    finally show ?thesis .
  qed
  have n: "((i * S + s) * H + h) * D + d = (i * S + s) * (H * D) + (h * D + d)"
    by (simp add: algebra_simps)
  have m: "((i * S + s) * (H * D) + (h * D + d)) mod (H * D) = h * D + d"
    using lt by simp
  have pos: "0 < H * D" using lt by linarith
  have q: "((i * S + s) * (H * D) + (h * D + d)) div (H * D) = i * S + s"
    using lt pos by simp
  have q2: "((i * S + s) * (H * D) + (h * D + d)) div (S * (H * D)) = i"
  proof -
    have "((i * S + s) * (H * D) + (h * D + d)) div (S * (H * D))
            = (((i * S + s) * (H * D) + (h * D + d)) div (H * D)) div S"
      by (subst mult.commute [of S]) (rule div_mult2_eq)
    also have "\<dots> = (i * S + s) div S" by (simp only: q)
    also have "\<dots> = i" using assms by simp
    finally show ?thesis .
  qed
  show ?thesis
    unfolding flat3_def n using assms(1,2,3) by (simp only: m q q2) simp
qed

lemma flat4_merge:
  assumes "t4_d1 t = S" "t4_d2 t = H" "t4_d3 t = D" "s < S" "e < H * D"
  shows "flat4 t ((i * S + s) * (H * D) + e) = t4_at t i s (e div D) (e mod D)"
proof -
  let ?n = "(i * S + s) * (H * D) + e"
  have pos: "0 < H * D" using assms(5) by linarith
  then have Dpos: "0 < D" and Hpos: "0 < H" by simp_all
  have q: "?n div (H * D) = i * S + s" using assms(5) pos by simp
  have a0: "?n div (S * H * D) = i"
  proof -
    have "?n div (S * H * D) = ?n div (H * D * S)" by (simp add: mult.commute mult.left_commute)
    also have "\<dots> = ?n div (H * D) div S" by (rule div_mult2_eq)
    also have "\<dots> = i" using assms(4) by (simp only: q) simp
    finally show ?thesis .
  qed
  have a1: "?n div (H * D) mod S = s" using assms(4) by (simp only: q) simp
  have n2: "?n = ((i * S + s) * H) * D + e" by (simp add: algebra_simps)
  have eH: "e div D < H" using assms(5) Dpos by (simp add: less_mult_imp_div_less)
  have a2: "?n div D mod H = e div D"
  proof -
    have "?n div D = (i * S + s) * H + e div D" unfolding n2 using Dpos by simp
    then show ?thesis using eH by simp
  qed
  have a3: "?n mod D = e mod D" unfolding n2 by simp
  show ?thesis
    unfolding flat4_def assms(1,2,3) by (simp only: a0 a1 a2 a3)
qed

lemma chunk3_triple:
  assumes "t3_d2 y = 3 * E" "0 < E"
  shows "chunk3 y =
    [\<lparr>t3_d0 = t3_d0 y, t3_d1 = t3_d1 y, t3_d2 = E, t3_at = (\<lambda>i j e. t3_at y i j (0 * E + e))\<rparr>,
     \<lparr>t3_d0 = t3_d0 y, t3_d1 = t3_d1 y, t3_d2 = E, t3_at = (\<lambda>i j e. t3_at y i j (1 * E + e))\<rparr>,
     \<lparr>t3_d0 = t3_d0 y, t3_d1 = t3_d1 y, t3_d2 = E, t3_at = (\<lambda>i j e. t3_at y i j (2 * E + e))\<rparr>]"
proof -
  have c: "(3 * E + 2) div 3 = E" by simp
  have n: "(3 * E + E - 1) div E = 3"
  proof -
    have "3 * E + E - 1 = E * 3 + (E - 1)" using assms(2) by linarith
    moreover have "(E * 3 + (E - 1)) div E = 3 + (E - 1) div E"
      using assms(2) by (intro div_mult_self4) simp
    moreover have "(E - 1) div E = 0" using assms(2) by simp
    ultimately show ?thesis by (simp only: add_0_right)
  qed
  have u: "[0..<3] = [0, 1, 2::nat]" by (simp add: upt_rec)
  show ?thesis
    unfolding chunk3_def Let_def assms(1) c n u using assms(2) by simp
qed

lemma bidx_in: "i < n \<Longrightarrow> bidx n i = i"
  by (auto simp: bidx_def)

lemma bdim_fits: "m = 1 \<or> m = n \<Longrightarrow> bdim n m = Some n"
  by (auto simp: bdim_def)

lemma bdim_same: "bdim n n = Some n"
  by (simp add: bdim_def)

lemma Linear_apply_at:
  "Linear_apply l x = Inr y \<Longrightarrow>
     t3_at y i j c = (\<Sum>e<in_features l. t3_at x i j e * weight l c e) + bias l c"
  by (auto simp: Linear_apply_def split: if_splits)

lemma masked_fill_fits:
  assumes "mask_fits m (t4_d0 t) (t4_d1 t) (t4_d2 t) (t4_d3 t)"
  shows "masked_fill t m v =
     Inr \<lparr>t4_d0 = t4_d0 t, t4_d1 = t4_d1 t, t4_d2 = t4_d2 t, t4_d3 = t4_d3 t,
          t4_at = (\<lambda>i h s u. if forbidden m i h s u then v
                   else t4_at t (bidx (t4_d0 t) i) (bidx (t4_d1 t) h)
                          (bidx (t4_d2 t) s) (bidx (t4_d3 t) u))\<rparr>"
  using assms unfolding masked_fill_def mask_fits_def forbidden_def
  by (simp add: bdim_fits)

lemma masked_fill_at:
  "masked_fill t m v = Inr r \<Longrightarrow>
     t4_at r i h s u = (if forbidden m i h s u then v
        else t4_at t (bidx (t4_d0 t) i) (bidx (t4_d1 t) h) (bidx (t4_d2 t) s) (bidx (t4_d3 t) u))"
  unfolding masked_fill_def forbidden_def
  by (auto split: option.splits)

lemma masked_fill_incompatible:
  "\<not> broadcastable m (t4_d0 t) (t4_d1 t) (t4_d2 t) (t4_d3 t) \<Longrightarrow>
     masked_fill t m v = Inl RuntimeError"
  by (auto simp: masked_fill_def broadcastable_def split: option.splits)

subsection \<open>Softmax\<close>

lemma softmax_dims:
  "t4_d0 (softmax t) = t4_d0 t" "t4_d1 (softmax t) = t4_d1 t"
  "t4_d2 (softmax t) = t4_d2 t" "t4_d3 (softmax t) = t4_d3 t"
  by (simp_all add: softmax_def)

lemma softmax_at:
  "t4_at (softmax t) i h s u = exp (t4_at t i h s u) / (\<Sum>w<t4_d3 t. exp (t4_at t i h s w))"
  by (simp add: softmax_def)

lemma softmax_denom_pos:
  assumes "0 < t4_d3 t"
  shows "0 < (\<Sum>w<t4_d3 t. exp (t4_at t i h s w))"
  by (rule sum_pos) (use assms in auto)

lemma softmax_row_sum:
  assumes "0 < t4_d3 t"
  shows "(\<Sum>u<t4_d3 t. t4_at (softmax t) i h s u) = 1"
proof -
  have "(\<Sum>u<t4_d3 t. t4_at (softmax t) i h s u)
          = (\<Sum>u<t4_d3 t. exp (t4_at t i h s u)) / (\<Sum>w<t4_d3 t. exp (t4_at t i h s w))"
    by (simp only: softmax_at sum_divide_distrib)
  also have "\<dots> = 1"
    by (rule divide_self) (use softmax_denom_pos [OF assms, of i h s] in simp)
  finally show ?thesis .
qed

lemma softmax_entry_bounds:
  assumes "u < t4_d3 t"
  shows "0 < t4_at (softmax t) i h s u" "t4_at (softmax t) i h s u \<le> 1"
proof -
  have pos: "0 < (\<Sum>w<t4_d3 t. exp (t4_at t i h s w))"
    by (rule softmax_denom_pos) (use assms in simp)
  show "0 < t4_at (softmax t) i h s u" using pos by (simp add: softmax_at)
  have "exp (t4_at t i h s u) \<le> (\<Sum>w<t4_d3 t. exp (t4_at t i h s w))"
    by (rule member_le_sum) (use assms in auto)
  then show "t4_at (softmax t) i h s u \<le> 1" using pos by (simp add: softmax_at)
qed

lemma softmax_uniform:
  assumes "\<forall>w<t4_d3 t. t4_at t i h s w = c" and "u < t4_d3 t"
  shows "t4_at (softmax t) i h s u = 1 / real (t4_d3 t)"
proof -
  have "(\<Sum>w<t4_d3 t. exp (t4_at t i h s w)) = (\<Sum>w<t4_d3 t. exp c)"
    by (rule sum.cong) (use assms(1) in simp_all)
  also have "\<dots> = real (t4_d3 t) * exp c" by simp
  finally have z: "(\<Sum>w<t4_d3 t. exp (t4_at t i h s w)) = real (t4_d3 t) * exp c" .
  have "t4_at (softmax t) i h s u = exp c / (real (t4_d3 t) * exp c)"
    using assms by (simp only: softmax_at z)
  also have "\<dots> = 1 / real (t4_d3 t)" by simp
  finally show ?thesis .
qed

lemma softmax_mass_bound:
  assumes F: "finite F" "\<forall>u\<in>F. t4_at t i h s u = c"
    and u0: "u0 < t4_d3 t"
    and le: "real (card F) * exp (c - t4_at t i h s u0) \<le> b"
  shows "(\<Sum>u\<in>F. t4_at (softmax t) i h s u) \<le> b"
proof -
  define Z where "Z = (\<Sum>w<t4_d3 t. exp (t4_at t i h s w))"
  let ?e = "exp (t4_at t i h s u0)"
  have "?e \<le> Z" unfolding Z_def
    by (rule member_le_sum [of u0 "{..<t4_d3 t}" "\<lambda>w. exp (t4_at t i h s w)"])
       (use u0 in auto)
  moreover have epos: "0 < ?e" by simp
  moreover have Zpos: "0 < Z" using calculation by linarith
  ultimately have a: "real (card F) * exp c / Z \<le> real (card F) * exp c / ?e"
    by (intro divide_left_mono) simp_all
  have "(\<Sum>u\<in>F. t4_at (softmax t) i h s u) = (\<Sum>u\<in>F. exp c / Z)"
    by (rule sum.cong) (simp_all add: softmax_at Z_def F(2))
  also have "\<dots> = real (card F) * exp c / Z" by simp
  also have "\<dots> \<le> real (card F) * exp c / ?e" by (rule a)
  also have "\<dots> = real (card F) * exp (c - t4_at t i h s u0)" by (simp add: exp_diff)
  also have "\<dots> \<le> b" by (rule le)
  finally show ?thesis .
qed

subsection \<open>The forward pass of a valid kernel, step by step\<close>

lemma forward_locals_valid:
  fixes H D :: nat
  assumes init: "SelfAttention_init (int (H * D)) (int H) iv = Inr kn"
    and pos: "0 < H" "0 < D"
    and xd: "t3_d2 x = H * D"
    and mk: "\<And>m. msk = Some m \<Longrightarrow> mask_fits m (t3_d0 x) H (t3_d1 x) (t3_d1 x)"
  obtains L y where
    "forward_locals kn x msk = Inr L"
    "Linear_apply (to_qkv kn) x = Inr y"
    "t4_d0 (l_q L) = t3_d0 x \<and> t4_d1 (l_q L) = H \<and> t4_d2 (l_q L) = t3_d1 x \<and> t4_d3 (l_q L) = D"
    "t4_d0 (l_k L) = t3_d0 x \<and> t4_d1 (l_k L) = H \<and> t4_d2 (l_k L) = t3_d1 x \<and> t4_d3 (l_k L) = D"
    "t4_d0 (l_v L) = t3_d0 x \<and> t4_d1 (l_v L) = H \<and> t4_d2 (l_v L) = t3_d1 x \<and> t4_d3 (l_v L) = D"
    "\<And>i h s d. \<lbrakk>s < t3_d1 x; h < H; d < D\<rbrakk> \<Longrightarrow>
        t4_at (l_q L) i h s d = t3_at y i s (h * D + d)"
    "\<And>i h s d. \<lbrakk>s < t3_d1 x; h < H; d < D\<rbrakk> \<Longrightarrow>
        t4_at (l_k L) i h s d = t3_at y i s (H * D + (h * D + d))"
    "\<And>i h s d. \<lbrakk>s < t3_d1 x; h < H; d < D\<rbrakk> \<Longrightarrow>
        t4_at (l_v L) i h s d = t3_at y i s (2 * (H * D) + (h * D + d))"
    "t4_d0 (l_scores L) = t3_d0 x \<and> t4_d1 (l_scores L) = H \<and>
     t4_d2 (l_scores L) = t3_d1 x \<and> t4_d3 (l_scores L) = t3_d1 x"
    "\<And>i h s u. \<lbrakk>i < t3_d0 x; h < H; s < t3_d1 x; u < t3_d1 x\<rbrakk> \<Longrightarrow>
        t4_at (l_scores L) i h s u =
          (if (case msk of None \<Rightarrow> False | Some m \<Rightarrow> forbidden m i h s u) then - 1000000000
           else (\<Sum>c<D. t4_at (l_q L) i h s c * t4_at (l_k L) i h u c) * (real D powr (- (1 / 2))))"
    "l_attn_weights L = softmax (l_scores L)"
    "t4_d0 (l_context L) = t3_d0 x \<and> t4_d1 (l_context L) = H \<and>
     t4_d2 (l_context L) = t3_d1 x \<and> t4_d3 (l_context L) = D"
    "\<And>i h s d. \<lbrakk>i < t3_d0 x; h < H\<rbrakk> \<Longrightarrow>
        t4_at (l_context L) i h s d =
          (\<Sum>c<t3_d1 x. t4_at (l_attn_weights L) i h s c * t4_at (l_v L) i h c d)"
    "t3_d0 (l_out L) = t3_d0 x \<and> t3_d1 (l_out L) = t3_d1 x \<and> t3_d2 (l_out L) = H * D"
    "\<And>i s c. s < t3_d1 x \<Longrightarrow>
        t3_at (l_out L) i s c =
          (\<Sum>e<H * D. t4_at (l_context L) i (e div D) s (e mod D) * weight (to_out kn) c e)
          + bias (to_out kn) c"
proof -
  note K = init_valid [OF init pos]
  define B where "B = t3_d0 x"
  define S where "S = t3_d1 x"
  define E where "E = H * D"
  have Epos: "0 < E" using pos by (simp add: E_def)
  have kq: "to_qkv kn = \<lparr>in_features = E, out_features = 3 * E,
                     weight = qkv_weight iv, bias = qkv_bias iv\<rparr>"
    and ko: "to_out kn = \<lparr>in_features = E, out_features = E,
                     weight = out_weight iv, bias = out_bias iv\<rparr>"
    and kh: "heads kn = int H" and kd: "head_dim kn = int D" and ke: "embed_size kn = int E"
    and ks: "scale kn = Float (real D powr (- (1 / 2)))"
    by (subst K, simp add: E_def del: of_nat_mult)+
  define y where "y = \<lparr>t3_d0 = B, t3_d1 = S, t3_d2 = 3 * E,
     t3_at = (\<lambda>i j c. (\<Sum>e<E. t3_at x i j e * qkv_weight iv c e) + qkv_bias iv c)\<rparr>"
  have Ly: "Linear_apply (to_qkv kn) x = Inr y"
    by (simp add: Linear_apply_def kq xd y_def B_def S_def E_def)
  define cs where "cs p = \<lparr>t3_d0 = B, t3_d1 = S, t3_d2 = E,
     t3_at = (\<lambda>i j e. t3_at y i j (p * E + e))\<rparr>" for p
  have ch: "chunk3 y = [cs 0, cs 1, cs 2]"
    using chunk3_triple [of y E] Epos by (simp add: cs_def y_def)
  define hd where "hd p = \<lparr>t4_d0 = B, t4_d1 = H, t4_d2 = S, t4_d3 = D,
     t4_at = (\<lambda>i h s d. flat3 (cs p) (((i * S + s) * H + h) * D + d))\<rparr>" for p
  have vw: "view4 (cs p) (int B) (int S) (heads kn) (head_dim kn) =
      Inr \<lparr>t4_d0 = B, t4_d1 = S, t4_d2 = H, t4_d3 = D,
           t4_at = (\<lambda>i j k l. flat3 (cs p) (((i * S + j) * H + k) * D + l))\<rparr>" for p
    unfolding kh kd view4_nat by (simp add: numel3_def cs_def E_def)
  define hq where "hq = hd 0"
  define hk where "hk = hd 1"
  define hv where "hv = hd 2"
  have sh: "split_heads kn B S (chunk3 y) = Inr [hq, hk, hv]"
    unfolding ch by (simp add: vw transpose_1_2_def hd_def hq_def hk_def hv_def)
  have hdd: "t4_d0 (hd p) = B" "t4_d1 (hd p) = H" "t4_d2 (hd p) = S" "t4_d3 (hd p) = D" for p
    by (simp_all add: hd_def)
  have hd_at: "t4_at (hd p) i h s d = t3_at y i s (p * E + (h * D + d))"
    if "s < S" "h < H" "d < D" for p i h s d
  proof -
    have "flat3 (cs p) (((i * S + s) * H + h) * D + d) = t3_at (cs p) i s (h * D + d)"
      by (rule flat3_split) (use that in \<open>simp_all add: cs_def E_def\<close>)
    then show ?thesis by (simp add: hd_def cs_def)
  qed
  define r where "r = real D powr (- (1 / 2))"
  define s0 where "s0 = \<lparr>t4_d0 = B, t4_d1 = H, t4_d2 = S, t4_d3 = S,
     t4_at = (\<lambda>i h s u. (\<Sum>c<D. t4_at hq (bidx B i) (bidx H h) s c
                                 * t4_at hk (bidx B i) (bidx H h) u c) * r)\<rparr>"
  have mm: "matmul4 hq (transpose_last hk) =
      Inr \<lparr>t4_d0 = B, t4_d1 = H, t4_d2 = S, t4_d3 = S,
           t4_at = (\<lambda>i h s u. (\<Sum>c<D. t4_at hq (bidx B i) (bidx H h) s c
                                 * t4_at hk (bidx B i) (bidx H h) u c))\<rparr>"
    by (simp add: matmul4_def transpose_last_def hq_def hk_def hdd bdim_same)
  have ms: "mul_scalar \<lparr>t4_d0 = B, t4_d1 = H, t4_d2 = S, t4_d3 = S,
           t4_at = (\<lambda>i h s u. (\<Sum>c<D. t4_at hq (bidx B i) (bidx H h) s c
                                 * t4_at hk (bidx B i) (bidx H h) u c))\<rparr> (scale kn) = Inr s0"
    by (simp add: mul_scalar_def ks s0_def r_def)
  define sc where "sc = (case msk of None \<Rightarrow> s0
     | Some m \<Rightarrow> \<lparr>t4_d0 = B, t4_d1 = H, t4_d2 = S, t4_d3 = S,
          t4_at = (\<lambda>i h s u. if forbidden m i h s u then - 1000000000
                   else t4_at s0 (bidx B i) (bidx H h) (bidx S s) (bidx S u))\<rparr>)"
  have mf: "(case msk of None \<Rightarrow> Inr s0 | Some m \<Rightarrow> masked_fill s0 m (- 1000000000)) = Inr sc"
  proof (cases msk)
    case None
    then show ?thesis by (simp add: sc_def)
  next
    case (Some m)
    have s0d: "t4_d0 s0 = B" "t4_d1 s0 = H" "t4_d2 s0 = S" "t4_d3 s0 = S"
      by (simp_all add: s0_def)
    have "mask_fits m (t4_d0 s0) (t4_d1 s0) (t4_d2 s0) (t4_d3 s0)"
      using mk [OF Some] by (simp add: s0d B_def S_def)
    from masked_fill_fits [OF this, unfolded s0d] show ?thesis
      by (simp add: Some sc_def)
  qed
  have scd: "t4_d0 sc = B \<and> t4_d1 sc = H \<and> t4_d2 sc = S \<and> t4_d3 sc = S"
    by (cases msk) (simp_all add: sc_def s0_def)
  define ctx where "ctx = \<lparr>t4_d0 = B, t4_d1 = H, t4_d2 = S, t4_d3 = D,
     t4_at = (\<lambda>i h s d. \<Sum>c<S. t4_at (softmax sc) (bidx B i) (bidx H h) s c
                                * t4_at hv (bidx B i) (bidx H h) c d)\<rparr>"
  have mc: "matmul4 (softmax sc) hv = Inr ctx"
    using scd by (simp add: matmul4_def softmax_def hv_def hdd bdim_same ctx_def)
  define mg where "mg = \<lparr>t3_d0 = B, t3_d1 = S, t3_d2 = E,
     t3_at = (\<lambda>i j k. flat4 (transpose_1_2 ctx) ((i * S + j) * E + k))\<rparr>"
  have rs: "reshape3 (transpose_1_2 ctx) (int B) (int S) (embed_size kn) = Inr mg"
    unfolding ke reshape3_nat
    by (simp add: numel4_def transpose_1_2_def ctx_def mg_def E_def)
  define out where "out = \<lparr>t3_d0 = B, t3_d1 = S, t3_d2 = E,
     t3_at = (\<lambda>i j c. (\<Sum>e<E. t3_at mg i j e * out_weight iv c e) + out_bias iv c)\<rparr>"
  have lo: "Linear_apply (to_out kn) mg = Inr out"
    by (simp add: Linear_apply_def ko mg_def out_def)
  define L where "L = \<lparr>l_q = hq, l_k = hk, l_v = hv, l_scores = sc,
     l_attn_weights = softmax sc, l_context = ctx, l_out = out\<rparr>"
  have FL: "forward_locals kn x msk = Inr L"
    unfolding forward_locals_def Let_def Ly
    by (simp add: sh [unfolded B_def S_def] mm ms mf mc
          rs [unfolded B_def S_def] lo L_def)
  have mg_at: "t3_at mg i s e = t4_at ctx i (e div D) s (e mod D)" if "s < S" "e < E" for i s e
  proof -
    have "flat4 (transpose_1_2 ctx) ((i * S + s) * (H * D) + e)
            = t4_at (transpose_1_2 ctx) i s (e div D) (e mod D)"
      by (rule flat4_merge) (use that in \<open>simp_all add: transpose_1_2_def ctx_def E_def\<close>)
    then show ?thesis by (simp add: mg_def transpose_1_2_def E_def)
  qed
  show ?thesis
  proof (rule that [of L y])
    show "forward_locals kn x msk = Inr L" by (rule FL)
    show "Linear_apply (to_qkv kn) x = Inr y" by (rule Ly)
    show "t4_d0 (l_q L) = t3_d0 x \<and> t4_d1 (l_q L) = H \<and> t4_d2 (l_q L) = t3_d1 x \<and> t4_d3 (l_q L) = D"
      by (simp add: L_def hq_def hk_def hv_def hdd B_def S_def)
    show "t4_d0 (l_k L) = t3_d0 x \<and> t4_d1 (l_k L) = H \<and> t4_d2 (l_k L) = t3_d1 x \<and> t4_d3 (l_k L) = D"
      by (simp add: L_def hq_def hk_def hv_def hdd B_def S_def)
    show "t4_d0 (l_v L) = t3_d0 x \<and> t4_d1 (l_v L) = H \<and> t4_d2 (l_v L) = t3_d1 x \<and> t4_d3 (l_v L) = D"
      by (simp add: L_def hq_def hk_def hv_def hdd B_def S_def)
    show "t4_at (l_q L) i h s d = t3_at y i s (h * D + d)"
      if "s < t3_d1 x" "h < H" "d < D" for i h s d
      using hd_at [of s h d 0 i] that by (simp add: L_def S_def hq_def)
    show "t4_at (l_k L) i h s d = t3_at y i s (H * D + (h * D + d))"
      if "s < t3_d1 x" "h < H" "d < D" for i h s d
      using hd_at [of s h d 1 i] that by (simp add: L_def S_def E_def hk_def)
    show "t4_at (l_v L) i h s d = t3_at y i s (2 * (H * D) + (h * D + d))"
      if "s < t3_d1 x" "h < H" "d < D" for i h s d
      using hd_at [of s h d 2 i] that by (simp add: L_def S_def E_def hv_def)
    show "t4_d0 (l_scores L) = t3_d0 x \<and> t4_d1 (l_scores L) = H \<and>
          t4_d2 (l_scores L) = t3_d1 x \<and> t4_d3 (l_scores L) = t3_d1 x"
      using scd by (simp add: L_def B_def S_def)
    show "t4_at (l_scores L) i h s u =
          (if (case msk of None \<Rightarrow> False | Some m \<Rightarrow> forbidden m i h s u) then - 1000000000
           else (\<Sum>c<D. t4_at (l_q L) i h s c * t4_at (l_k L) i h u c) * (real D powr (- (1 / 2))))"
      if "i < t3_d0 x" "h < H" "s < t3_d1 x" "u < t3_d1 x" for i h s u
    proof -
      have b: "bidx B i = i" "bidx H h = h" "bidx S s = s" "bidx S u = u"
        using that by (simp_all add: bidx_in B_def S_def)
      show ?thesis
        by (cases msk) (simp_all add: L_def sc_def s0_def b r_def)
    qed
    show "l_attn_weights L = softmax (l_scores L)" by (simp add: L_def)
    show "t4_d0 (l_context L) = t3_d0 x \<and> t4_d1 (l_context L) = H \<and>
          t4_d2 (l_context L) = t3_d1 x \<and> t4_d3 (l_context L) = D"
      by (simp add: L_def ctx_def B_def S_def)
    show "t4_at (l_context L) i h s d =
          (\<Sum>c<t3_d1 x. t4_at (l_attn_weights L) i h s c * t4_at (l_v L) i h c d)"
      if "i < t3_d0 x" "h < H" for i h s d
    proof -
      have b: "bidx B i = i" "bidx H h = h"
        using that by (simp_all add: bidx_in B_def)
      show ?thesis by (simp add: L_def ctx_def b S_def)
    qed
    show "t3_d0 (l_out L) = t3_d0 x \<and> t3_d1 (l_out L) = t3_d1 x \<and> t3_d2 (l_out L) = H * D"
      by (simp add: L_def out_def B_def S_def E_def)
    show "t3_at (l_out L) i s c =
          (\<Sum>e<H * D. t4_at (l_context L) i (e div D) s (e mod D) * weight (to_out kn) c e)
          + bias (to_out kn) c"
      if "s < t3_d1 x" for i s c
    proof -
      have "(\<Sum>e<E. t3_at mg i s e * out_weight iv c e)
          = (\<Sum>e<E. t4_at ctx i (e div D) s (e mod D) * out_weight iv c e)"
        by (rule sum.cong) (use that in \<open>simp_all add: mg_at S_def\<close>)
      then show ?thesis by (simp add: L_def out_def ko E_def)
    qed
  qed
qed

lemma forward_succeeds:
  assumes "SelfAttention_init es hs iv = Inr kn" and "0 < es" and "0 < hs" and "hs dvd es"
    and "t3_d2 x = nat es"
    and "\<forall>m. msk = Some m \<longrightarrow> mask_fits m (t3_d0 x) (nat hs) (t3_d1 x) (t3_d1 x)"
  shows "\<exists>L. forward_locals kn x msk = Inr L \<and> forward kn x msk = Inr (l_out L)
     \<and> t3_d0 (l_out L) = t3_d0 x \<and> t3_d1 (l_out L) = t3_d1 x \<and> t3_d2 (l_out L) = t3_d2 x
     \<and> t4_d0 (l_attn_weights L) = t3_d0 x \<and> t4_d1 (l_attn_weights L) = nat hs
     \<and> t4_d2 (l_attn_weights L) = t3_d1 x \<and> t4_d3 (l_attn_weights L) = t3_d1 x"
proof -
  obtain H D :: nat where HD: "0 < H" "0 < D" "es = int (H * D)" "hs = int H"
    "H = nat hs" "D = nat (es div hs)"
    by (rule valid_config_nat [OF assms(2-4)])
  have init: "SelfAttention_init (int (H * D)) (int H) iv = Inr kn"
    using assms(1) HD(3,4) by simp
  have E: "nat es = H * D" unfolding HD(3) by (rule nat_int)
  have xd: "t3_d2 x = H * D" using assms(5) E by simp
  have mk: "mask_fits m (t3_d0 x) H (t3_d1 x) (t3_d1 x)" if "msk = Some m" for m
    using assms(6) that HD(5) by simp
  show ?thesis
  proof (rule forward_locals_valid [OF init HD(1,2) xd mk])
    fix L y
    assume L: "forward_locals kn x msk = Inr L"
      and od: "t3_d0 (l_out L) = t3_d0 x \<and> t3_d1 (l_out L) = t3_d1 x \<and> t3_d2 (l_out L) = H * D"
      and sd: "t4_d0 (l_scores L) = t3_d0 x \<and> t4_d1 (l_scores L) = H \<and>
               t4_d2 (l_scores L) = t3_d1 x \<and> t4_d3 (l_scores L) = t3_d1 x"
      and aw: "l_attn_weights L = softmax (l_scores L)"
    have F: "forward kn x msk = Inr (l_out L)" by (simp add: forward_def L)
    show ?thesis
      by (intro exI [of _ L] conjI) (simp_all add: L F od xd sd aw softmax_dims HD(5))
  qed
qed

lemma single_feature_locals:
  assumes init: "SelfAttention_init 1 1 iv = Inr kn"
    and xd: "t3_d2 x = 1"
    and mk: "mask_fits m (t3_d0 x) 1 (t3_d1 x) (t3_d1 x)"
  shows "\<exists>L. forward_locals kn x (Some m) = Inr L
     \<and> t4_d3 (l_attn_weights L) = t3_d1 x
     \<and> (\<forall>i s. s < t3_d1 x \<longrightarrow>
          t4_at (l_q L) i 0 s 0 = t3_at x i s 0 * qkv_weight iv 0 0 + qkv_bias iv 0
          \<and> t4_at (l_k L) i 0 s 0 = t3_at x i s 0 * qkv_weight iv 1 0 + qkv_bias iv 1)
     \<and> (\<forall>i s u. i < t3_d0 x \<and> s < t3_d1 x \<and> u < t3_d1 x \<longrightarrow>
          t4_at (l_scores L) i 0 s u =
            (if forbidden m i 0 s u then - 1000000000
             else (t3_at x i s 0 * qkv_weight iv 0 0 + qkv_bias iv 0)
                * (t3_at x i u 0 * qkv_weight iv 1 0 + qkv_bias iv 1)))"
proof -
  have init': "SelfAttention_init (int (1 * 1)) (int 1) iv = Inr kn" using init by simp
  have xd': "t3_d2 x = 1 * 1" using xd by simp
  have mk': "mask_fits m' (t3_d0 x) 1 (t3_d1 x) (t3_d1 x)" if "Some m = Some m'" for m'
    using mk that by simp
  have kq: "to_qkv kn = \<lparr>in_features = 1, out_features = 3,
                     weight = qkv_weight iv, bias = qkv_bias iv\<rparr>"
    using init_InrD [OF init] by simp
  show ?thesis
  proof (rule forward_locals_valid [OF init' zero_less_one zero_less_one xd' mk'])
    fix L y
    assume L: "forward_locals kn x (Some m) = Inr L"
      and Ly: "Linear_apply (to_qkv kn) x = Inr y"
      and qa: "\<And>i h s d. \<lbrakk>s < t3_d1 x; h < 1; d < 1\<rbrakk> \<Longrightarrow>
        t4_at (l_q L) i h s d = t3_at y i s (h * 1 + d)"
      and ka: "\<And>i h s d. \<lbrakk>s < t3_d1 x; h < 1; d < 1\<rbrakk> \<Longrightarrow>
        t4_at (l_k L) i h s d = t3_at y i s (1 * 1 + (h * 1 + d))"
      and sd: "t4_d0 (l_scores L) = t3_d0 x \<and> t4_d1 (l_scores L) = 1 \<and>
               t4_d2 (l_scores L) = t3_d1 x \<and> t4_d3 (l_scores L) = t3_d1 x"
      and sa: "\<And>i h s u. \<lbrakk>i < t3_d0 x; h < 1; s < t3_d1 x; u < t3_d1 x\<rbrakk> \<Longrightarrow>
        t4_at (l_scores L) i h s u =
          (if (case Some m of None \<Rightarrow> False | Some m \<Rightarrow> forbidden m i h s u) then - 1000000000
           else (\<Sum>c<1. t4_at (l_q L) i h s c * t4_at (l_k L) i h u c) * (real 1 powr (- (1 / 2))))"
      and aw: "l_attn_weights L = softmax (l_scores L)"
    have ya: "t3_at y i j c = t3_at x i j 0 * qkv_weight iv c 0 + qkv_bias iv c" for i j c
      using Linear_apply_at [OF Ly, of i j c] by (simp add: kq)
    have q: "t4_at (l_q L) i 0 s 0 = t3_at x i s 0 * qkv_weight iv 0 0 + qkv_bias iv 0"
      if "s < t3_d1 x" for i s
      using qa [of s 0 0 i] that by (simp add: ya)
    have k: "t4_at (l_k L) i 0 s 0 = t3_at x i s 0 * qkv_weight iv 1 0 + qkv_bias iv 1"
      if "s < t3_d1 x" for i s
      using ka [of s 0 0 i] that by (simp add: ya)
    have sc: "t4_at (l_scores L) i 0 s u =
            (if forbidden m i 0 s u then - 1000000000
             else (t3_at x i s 0 * qkv_weight iv 0 0 + qkv_bias iv 0)
                * (t3_at x i u 0 * qkv_weight iv 1 0 + qkv_bias iv 1))"
      if "i < t3_d0 x" "s < t3_d1 x" "u < t3_d1 x" for i s u
      using sa [of i 0 s u] that by (simp add: q k)
    show ?thesis
      by (intro exI [of _ L] conjI allI impI) (simp_all add: L aw softmax_dims sd sc q k)
  qed
qed

lemma single_feature_kernel:
  assumes "SelfAttention_init 1 1 iv = Inr kn"
  shows "head_dim kn = 1" "embed_size kn = 1"
    "to_qkv kn = \<lparr>in_features = 1, out_features = 3,
                   weight = qkv_weight iv, bias = qkv_bias iv\<rparr>"
  using init_InrD [OF assms] by simp_all

lemma forward_locals_attn:
  "forward_locals kn x msk = Inr L \<Longrightarrow> l_attn_weights L = softmax (l_scores L)"
  unfolding forward_locals_def Let_def
  by (auto split: sum.splits if_splits)

subsection \<open>Facts about the concrete inputs\<close>

lemma x_ones_dims: "t3_d0 x_ones = 1" "t3_d1 x_ones = 3" "t3_d2 x_ones = 8"
  by (simp_all add: x_ones_def)

lemma x_ramp_dims: "t3_d0 x_ramp = 1" "t3_d1 x_ramp = 3" "t3_d2 x_ramp = 8"
  by (simp_all add: x_ramp_def)

lemma x_large_dims: "t3_d0 x_large = 1" "t3_d1 x_large = 2" "t3_d2 x_large = 1"
  by (simp_all add: x_large_def)

lemma mask_row0_fits: "mask_fits mask_row0_forbidden (Suc 0) 2 3 3"
  by (simp add: mask_fits_def mask_row0_forbidden_def)

lemma mask_row0_forbidden_row: "forbidden mask_row0_forbidden i h 0 u"
  by (simp add: forbidden_def mask_row0_forbidden_def bidx_def)

lemma mask_key0_not_broadcastable: "\<not> broadcastable mask_key0_only 1 2 3 3"
  by (simp add: broadcastable_def mask_key0_only_def bdim_def)

lemma lessThan_3: "{..<3::nat} = {0, 1, 2}"
  by auto

lemma swap01_bij: "bij_betw swap01 {..<3} {..<3}"
  by (rule bij_betw_byWitness [where f' = swap01]) (auto simp: swap01_def)

lemma permute_seq_dims:
  "t3_d0 (permute_seq p x) = t3_d0 x" "t3_d1 (permute_seq p x) = t3_d1 x"
  "t3_d2 (permute_seq p x) = t3_d2 x"
  by (simp_all add: permute_seq_def)

lemma kn_8_2_fields:
  "embed_size kn_8_2 = 8" "head_dim kn_8_2 = 4"
  "to_qkv kn_8_2 = \<lparr>in_features = 8, out_features = 24,
                      weight = qkv_weight iv0, bias = qkv_bias iv0\<rparr>"
  by (simp_all add: kn_8_2_def SelfAttention_init_def Linear_init_def pow_neg_half_def
        int64_ok_def allocatable_def iv0_def)

lemma x_ones_values_in_range: "values_in_range kn_8_2 x_ones i h d"
  unfolding values_in_range_def sizes_in_range_def kn_8_2_fields x_ones_dims
  by (simp add: Linear_abs_def iv0_def float_safe_def)

lemma key0_only_forbidden: "spec_forbidden key0_only i s u \<longleftrightarrow> bidx 2 u \<noteq> 0"
  by (simp add: key0_only_def)

lemma key0_only_fits: "mask_fits (mask_tensor key0_only) (Suc 0) (Suc 0) 2 2"
  by (simp add: mask_fits_def key0_only_def)

lemma key0_only_row: "{u. u < 2 \<and> spec_forbidden key0_only i s u} = {1}"
  by (auto simp: key0_only_forbidden bidx_def)

lemma key0_only_shared: "shared_mask key0_only"
  by (simp add: key0_only_def)

lemma float_safe_large: "10000000000 \<le> float_safe" "0 \<le> float_safe"
  by (simp_all add: float_safe_def)

subsection \<open>Shape preservation\<close>

text \<open>
  Claim C1. A kernel built from a positive \<open>embed_size\<close> and a positive \<open>heads\<close>
  that divides it maps an input of shape \<open>(B, S, embed_size)\<close> to an output of the same
  shape, without a mask or with a mask that fits the scores. Feature \<open>e\<close> of the merged
  context is component \<open>e mod head_dim\<close> of head \<open>e div head_dim\<close> (the heads are
  concatenated along the feature axis), and the output projection maps \<open>embed_size\<close>
  features to \<open>embed_size\<close> features.
\<close>

theorem forward_preserves_shape:
  assumes "SelfAttention_init es hs iv = Inr kn" and "0 < es" and "0 < hs" and "hs dvd es"
    and "t3_d2 x = nat es"
    and "\<forall>m. msk = Some m \<longrightarrow> mask_fits m (t3_d0 x) (nat hs) (t3_d1 x) (t3_d1 x)"
  shows "\<exists>L. forward_locals kn x msk = Inr L \<and> forward kn x msk = Inr (l_out L)
     \<and> t3_d0 (l_out L) = t3_d0 x \<and> t3_d1 (l_out L) = t3_d1 x \<and> t3_d2 (l_out L) = t3_d2 x
     \<and> (\<forall>i s c. s < t3_d1 x \<longrightarrow>
          t3_at (l_out L) i s c =
            (\<Sum>e<nat es. t4_at (l_context L) i (e div nat (es div hs)) s (e mod nat (es div hs))
                          * weight (to_out kn) c e) + bias (to_out kn) c)"
proof -
  obtain H D :: nat where HD: "0 < H" "0 < D" "es = int (H * D)" "hs = int H"
    "H = nat hs" "D = nat (es div hs)"
    by (rule valid_config_nat [OF assms(2-4)])
  have init: "SelfAttention_init (int (H * D)) (int H) iv = Inr kn"
    using assms(1) HD(3,4) by simp
  have E: "nat es = H * D" unfolding HD(3) by (rule nat_int)
  have xd: "t3_d2 x = H * D" using assms(5) E by simp
  have mk: "mask_fits m (t3_d0 x) H (t3_d1 x) (t3_d1 x)" if "msk = Some m" for m
    using assms(6) that HD(5) by simp
  show ?thesis
  proof (rule forward_locals_valid [OF init HD(1,2) xd mk])
    fix L y
    assume L: "forward_locals kn x msk = Inr L"
      and od: "t3_d0 (l_out L) = t3_d0 x \<and> t3_d1 (l_out L) = t3_d1 x \<and> t3_d2 (l_out L) = H * D"
      and oa: "\<And>i s c. s < t3_d1 x \<Longrightarrow>
        t3_at (l_out L) i s c =
          (\<Sum>e<H * D. t4_at (l_context L) i (e div D) s (e mod D) * weight (to_out kn) c e)
          + bias (to_out kn) c"
    have F: "forward kn x msk = Inr (l_out L)" by (simp add: forward_def L)
    show ?thesis unfolding E HD(6) [symmetric]
      by (intro exI [of _ L] conjI allI impI) (simp_all add: L F od xd oa)
  qed
qed


text \<open>
  The theorem at \<^verbatim>\<open>SelfAttention(8, 2)\<close> and an all-ones input of shape \<open>(1, 3, 8)\<close>.
\<close>

theorem forward_preserves_shape_witness:
  "\<exists>L. forward_locals kn_8_2 x_ones None = Inr L \<and> forward kn_8_2 x_ones None = Inr (l_out L)
     \<and> t3_d0 (l_out L) = 1 \<and> t3_d1 (l_out L) = 3 \<and> t3_d2 (l_out L) = 8
     \<and> t3_at (l_out L) 0 2 7 =
          (\<Sum>e<8. t4_at (l_context L) 0 (e div 4) 2 (e mod 4) * weight (to_out kn_8_2) 7 e)
          + bias (to_out kn_8_2) 7"
proof -
  have "\<exists>L. forward_locals kn_8_2 x_ones None = Inr L \<and>
      forward kn_8_2 x_ones None = Inr (l_out L) \<and>
      t3_d0 (l_out L) = t3_d0 x_ones \<and> t3_d1 (l_out L) = t3_d1 x_ones \<and>
      t3_d2 (l_out L) = t3_d2 x_ones \<and>
      (\<forall>i s c. s < t3_d1 x_ones \<longrightarrow>
          t3_at (l_out L) i s c =
            (\<Sum>e<nat 8. t4_at (l_context L) i (e div nat (8 div 2)) s (e mod nat (8 div 2))
                          * weight (to_out kn_8_2) c e) + bias (to_out kn_8_2) c)"
    by (rule forward_preserves_shape [OF init_kn_8_2]) (simp_all add: x_ones_dims)
  then obtain L where L: "forward_locals kn_8_2 x_ones None = Inr L"
    and F: "forward kn_8_2 x_ones None = Inr (l_out L)"
    and d: "t3_d0 (l_out L) = t3_d0 x_ones" "t3_d1 (l_out L) = t3_d1 x_ones"
      "t3_d2 (l_out L) = t3_d2 x_ones"
    and o: "\<forall>i s c. s < t3_d1 x_ones \<longrightarrow>
          t3_at (l_out L) i s c =
            (\<Sum>e<nat 8. t4_at (l_context L) i (e div nat (8 div 2)) s (e mod nat (8 div 2))
                          * weight (to_out kn_8_2) c e) + bias (to_out kn_8_2) c"
    by blast
  have "t3_at (l_out L) 0 2 7 =
          (\<Sum>e<8. t4_at (l_context L) 0 (e div 4) 2 (e mod 4) * weight (to_out kn_8_2) 7 e)
          + bias (to_out kn_8_2) 7"
    using o [rule_format, of 2 0 7] by (simp add: x_ones_dims)
  then show ?thesis using L F d by (intro exI [of _ L]) (simp add: x_ones_dims)
qed

subsection \<open>Rows whose keys are all forbidden\<close>

text \<open>
  Claim C4, as amended. When the mask forbids every key of some row, the forward pass
  raises nothing on that account and returns an output of the input's shape.
\<close>

theorem all_masked_row_returns:
  assumes "SelfAttention_init es hs iv = Inr kn" and "0 < es" and "0 < hs" and "hs dvd es"
    and "t3_d2 x = nat es"
    and "mask_fits m (t3_d0 x) (nat hs) (t3_d1 x) (t3_d1 x)"
    and "i < t3_d0 x" and "h < nat hs" and "s < t3_d1 x"
    and "\<forall>u<t3_d1 x. forbidden m i h s u"
  shows "\<exists>y. forward kn x (Some m) = Inr y
     \<and> t3_d0 y = t3_d0 x \<and> t3_d1 y = t3_d1 x \<and> t3_d2 y = t3_d2 x"
  using forward_succeeds [OF assms(1-5), of "Some m"] assms(6) by auto

text \<open>
  The theorem at a mask that forbids every key to query 0.
\<close>

theorem all_masked_row_returns_witness:
  "\<exists>y. forward kn_8_2 x_ones (Some mask_row0_forbidden) = Inr y
     \<and> t3_d0 y = 1 \<and> t3_d1 y = 3 \<and> t3_d2 y = 8"
proof -
  have "\<exists>y. forward kn_8_2 x_ones (Some mask_row0_forbidden) = Inr y
     \<and> t3_d0 y = t3_d0 x_ones \<and> t3_d1 y = t3_d1 x_ones \<and> t3_d2 y = t3_d2 x_ones"
    by (rule all_masked_row_returns [OF init_kn_8_2, where i = 0 and h = 1 and s = 0])
       (simp_all add: x_ones_dims mask_row0_fits mask_row0_forbidden_row)
  then show ?thesis by (simp add: x_ones_dims)
qed

text \<open>
  Claim C4 as stated fails: with every key of query 0 forbidden, the call returns a value
  and raises no exception.
\<close>

theorem all_masked_row_no_exception:
  "forbidden mask_row0_forbidden 0 0 0 0 \<and> forbidden mask_row0_forbidden 0 0 0 1
     \<and> forbidden mask_row0_forbidden 0 0 0 2
     \<and> \<not> isl (forward kn_8_2 x_ones (Some mask_row0_forbidden))"
proof -
  from forward_succeeds [OF init_kn_8_2, of x_ones "Some mask_row0_forbidden"]
  obtain L :: locals where "forward kn_8_2 x_ones (Some mask_row0_forbidden) = Inr (l_out L)"
    by (auto simp: x_ones_dims mask_row0_fits)
  then show ?thesis by (simp add: mask_row0_forbidden_row)
qed

subsection \<open>Shape errors\<close>

text \<open>
  Where \<open>forward\<close> stops with torch's shape error: in \<^verbatim>\<open>to_qkv\<close> when the last
  size of the input is not \<open>embed_size\<close>, in \<^verbatim>\<open>masked_fill\<close> when the mask cannot be
  broadcast against the scores.
\<close>

lemma forward_raises_RuntimeError:
  assumes init: "SelfAttention_init es hs iv = Inr kn"
    and bad: "t3_d2 x \<noteq> nat es \<or>
       (\<exists>m. msk = Some m \<and> \<not> broadcastable m (t3_d0 x) (nat hs) (t3_d1 x) (t3_d1 x))"
  shows "forward kn x msk = Inl RuntimeError"
proof -
  from init have hs0: "hs \<noteq> 0" and es0: "0 \<le> es" and hd0: "es div hs \<noteq> 0"
    and kn: "kn = \<lparr>embed_size = es, heads = hs, head_dim = es div hs,
           to_qkv = \<lparr>in_features = nat es, out_features = nat (3 * es),
                     weight = qkv_weight iv, bias = qkv_bias iv\<rparr>,
           scale = (if 0 < es div hs then Float (real_of_int (es div hs) powr (- (1 / 2)))
                    else ComplexNum (Complex 0 (- (real_of_int (- (es div hs)) powr (- (1 / 2)))))),
           to_out = \<lparr>in_features = nat es, out_features = nat es,
                     weight = out_weight iv, bias = out_bias iv\<rparr>\<rparr>"
    using init_InrD [OF init] by simp_all
  have kq: "to_qkv kn = \<lparr>in_features = nat es, out_features = nat (3 * es),
                     weight = qkv_weight iv, bias = qkv_bias iv\<rparr>"
    and kh: "heads kn = hs" and kd: "head_dim kn = es div hs"
    and ks: "scale kn = (if 0 < es div hs then Float (real_of_int (es div hs) powr (- (1 / 2)))
                    else ComplexNum (Complex 0 (- (real_of_int (- (es div hs)) powr (- (1 / 2))))))"
    by (subst kn, simp)+
  have "forward_locals kn x msk = Inl RuntimeError"
  proof (cases "t3_d2 x = nat es")
    case False
    then have "Linear_apply (to_qkv kn) x = Inl RuntimeError"
      by (simp add: Linear_apply_def kq)
    then show ?thesis by (simp add: forward_locals_def)
  next
    case True
    with bad obtain m where m: "msk = Some m"
      and nb: "\<not> broadcastable m (t3_d0 x) (nat hs) (t3_d1 x) (t3_d1 x)" by blast
    define B where "B = t3_d0 x"
    define S where "S = t3_d1 x"
    define E where "E = nat es"
    have Epos: "0 < E" using hd0 es0 by (cases "es = 0") (simp_all add: E_def)
    have n3: "nat (3 * es) = 3 * E" using es0 by (simp add: E_def)
    define y where "y = \<lparr>t3_d0 = B, t3_d1 = S, t3_d2 = 3 * E,
       t3_at = (\<lambda>i j c. (\<Sum>e<E. t3_at x i j e * qkv_weight iv c e) + qkv_bias iv c)\<rparr>"
    have Ly: "Linear_apply (to_qkv kn) x = Inr y"
      by (simp add: Linear_apply_def kq True y_def B_def S_def E_def n3 [unfolded E_def])
    define cs where "cs p = \<lparr>t3_d0 = B, t3_d1 = S, t3_d2 = E,
       t3_at = (\<lambda>i j e. t3_at y i j (p * E + e))\<rparr>" for p
    have ch: "chunk3 y = [cs 0, cs 1, cs 2]"
      using chunk3_triple [of y E] Epos by (simp add: cs_def y_def)
    show ?thesis
    proof (cases "hs < 0")
      case True
      then have "es div hs \<le> 0" using es0 by (intro div_nonneg_neg_le0)
      then have "es div hs < 0" using hd0 by simp
      then have "view4 (cs 0) (int B) (int S) (heads kn) (head_dim kn) = Inl RuntimeError"
        unfolding kh kd using True by (intro view4_negative)
      then have "split_heads kn B S (chunk3 y) = Inl RuntimeError"
        unfolding ch by simp
      then show ?thesis
        unfolding forward_locals_def Let_def Ly by (simp add: B_def S_def)
    next
      case False
      then have hpos: "0 < hs" using hs0 by simp
      then have "0 \<le> es div hs" using es0 by (simp add: pos_imp_zdiv_nonneg_iff)
      then have dpos: "0 < es div hs" using hd0 by simp
      define H where "H = nat hs"
      define D where "D = nat (es div hs)"
      have kh': "heads kn = int H" and kd': "head_dim kn = int D"
        using hpos dpos by (simp_all add: kh kd H_def D_def)
      have ks': "scale kn = Float (real_of_int (es div hs) powr (- (1 / 2)))"
        using dpos by (simp add: ks)
      have vw: "view4 (cs p) (int B) (int S) (heads kn) (head_dim kn) =
          (if B * S * E = B * S * H * D
           then Inr \<lparr>t4_d0 = B, t4_d1 = S, t4_d2 = H, t4_d3 = D,
                     t4_at = (\<lambda>i j k l. flat3 (cs p) (((i * S + j) * H + k) * D + l))\<rparr>
           else Inl RuntimeError)" for p
        unfolding kh' kd' view4_nat by (simp add: numel3_def cs_def)
      show ?thesis
      proof (cases "B * S * E = B * S * H * D")
        case False
        then have "split_heads kn B S (chunk3 y) = Inl RuntimeError"
          unfolding ch by (simp add: vw)
        then show ?thesis
          unfolding forward_locals_def Let_def Ly by (simp add: B_def S_def)
      next
        case True
        define hd where "hd p = \<lparr>t4_d0 = B, t4_d1 = H, t4_d2 = S, t4_d3 = D,
           t4_at = (\<lambda>i h s d. flat3 (cs p) (((i * S + s) * H + h) * D + d))\<rparr>" for p
        define hq where "hq = hd 0"
        define hk where "hk = hd 1"
        define hv where "hv = hd 2"
        have sh: "split_heads kn B S (chunk3 y) = Inr [hq, hk, hv]"
          unfolding ch using True
          by (simp add: vw transpose_1_2_def hd_def hq_def hk_def hv_def)
        have hdd: "t4_d0 (hd p) = B" "t4_d1 (hd p) = H" "t4_d2 (hd p) = S" "t4_d3 (hd p) = D" for p
          by (simp_all add: hd_def)
        obtain qk where mm: "matmul4 hq (transpose_last hk) = Inr qk"
          and qkd: "t4_d0 qk = B" "t4_d1 qk = H" "t4_d2 qk = S" "t4_d3 qk = S"
          by (simp add: matmul4_def transpose_last_def hq_def hk_def hdd bdim_same)
        obtain s0 where ms: "mul_scalar qk (scale kn) = Inr s0"
          and s0d: "t4_d0 s0 = B" "t4_d1 s0 = H" "t4_d2 s0 = S" "t4_d3 s0 = S"
          by (simp add: mul_scalar_def ks' qkd)
        have "masked_fill s0 m (- 1000000000) = Inl RuntimeError"
          by (rule masked_fill_incompatible) (use nb in \<open>simp add: s0d B_def S_def H_def\<close>)
        then show ?thesis
          unfolding forward_locals_def Let_def Ly
          by (simp add: sh [unfolded B_def S_def] mm ms m)
      qed
    qed
  qed
  then show ?thesis by (simp add: forward_def)
qed


text \<open>
  Claim C6, as amended. For a kernel built by the constructor, the forward pass raises
  \<^verbatim>\<open>RuntimeError\<close> (the library's shape error) whenever the last size of the
  embeddings differs from \<open>embed_size\<close>, or a mask is supplied that cannot be broadcast
  against the scores of shape \<open>(B, heads, S, S)\<close>. Nothing is said about a sequence of
  length zero.
\<close>

theorem forward_shape_error:
  assumes init: "SelfAttention_init es hs iv = Inr kn"
    and bad: "t3_d2 x \<noteq> nat es \<or>
       (\<exists>m. msk = Some m \<and> \<not> broadcastable m (t3_d0 x) (nat hs) (t3_d1 x) (t3_d1 x))"
  shows "forward kn x msk = Inl RuntimeError"
  using init bad by (rule forward_raises_RuntimeError)

text \<open>
  The theorem at \<^verbatim>\<open>SelfAttention(8, 2)\<close>: an input with 5 features, and an input of
  shape \<open>(1, 3, 8)\<close> with a mask of shape \<open>(1, 1, 2, 2)\<close>.
\<close>

theorem forward_shape_error_witness:
  "forward kn_8_2 x_narrow None = Inl RuntimeError
     \<and> forward kn_8_2 x_ones (Some mask_key0_only) = Inl RuntimeError"
proof -
  have a: "forward kn_8_2 x_narrow None = Inl RuntimeError"
    by (rule forward_shape_error [OF init_kn_8_2]) (simp add: x_narrow_def)
  have b: "forward kn_8_2 x_ones (Some mask_key0_only) = Inl RuntimeError"
    by (rule forward_shape_error [OF init_kn_8_2])
       (use mask_key0_not_broadcastable in \<open>simp add: x_ones_dims\<close>)
  from a b show ?thesis by simp
qed

text \<open>
  Claim C6 as stated fails: an input of shape \<open>(1, 0, 8)\<close>, whose sequence length is
  zero, raises nothing.
\<close>

theorem empty_sequence_accepted:
  "t3_d1 x_empty = 0 \<and> \<not> isl (forward kn_8_2 x_empty None)"
proof -
  from forward_succeeds [OF init_kn_8_2, of x_empty None]
  obtain L :: locals where "forward kn_8_2 x_empty None = Inr (l_out L)"
    by (auto simp: x_empty_def)
  then show ?thesis by (simp add: x_empty_def)
qed

subsection \<open>The arguments of a call\<close>

text \<open>
  Claim C7, as amended. The method takes the embeddings and the mask only: a call with
  any further keyword argument raises \<^verbatim>\<open>TypeError\<close>, and a call that returns, returns
  the output batch of \<open>forward\<close> and nothing else.
\<close>

theorem call_forward_output_only:
  "(kwargs \<noteq> [] \<longrightarrow> call_forward kn x msk kwargs = Inl TypeError)
     \<and> (call_forward kn x msk kwargs = Inr y \<longrightarrow> kwargs = [] \<and> forward kn x msk = Inr y)"
  by (simp add: call_forward_def)

text \<open>
  The theorem at a call with a further keyword argument and at a call without one.
\<close>

theorem call_forward_output_only_witness:
  "call_forward kn_8_2 x_ones None [(''mask_fill'', False)] = Inl TypeError
     \<and> call_forward kn_8_2 x_ones None [] = forward kn_8_2 x_ones None
     \<and> \<not> isl (call_forward kn_8_2 x_ones None [])"
proof -
  from forward_succeeds [OF init_kn_8_2, of x_ones None]
  obtain L :: locals where F: "forward kn_8_2 x_ones None = Inr (l_out L)"
    by (auto simp: x_ones_dims)
  have c: "call_forward kn_8_2 x_ones None [] = Inr (l_out L)"
    by (simp add: call_forward_def F)
  from call_forward_output_only [of "[(''mask_fill'', False)]" kn_8_2 x_ones None "l_out L"]
    call_forward_output_only [of "[]" kn_8_2 x_ones None "l_out L"] c
  show ?thesis by simp
qed

text \<open>
  Claim C7 as stated fails: a call with \<^verbatim>\<open>return_weights=True\<close> raises
  \<^verbatim>\<open>TypeError\<close> and returns no attention weights.
\<close>

theorem return_weights_rejected:
  "call_forward kn_8_2 x_ones None [(''return_weights'', True)] = Inl TypeError"
  by (simp add: call_forward_def)

subsection \<open>Permutation of the sequence\<close>

text \<open>
  Claim C9. Without a mask, permuting the sequence axis of the input by \<open>p\<close> permutes
  the output by \<open>p\<close>, and the attention weights of the permuted input are those of the
  original input with the query index and the key index both reindexed by \<open>p\<close>.
\<close>

theorem permutation_equivariance:
  assumes "SelfAttention_init es hs iv = Inr kn" and "0 < es" and "0 < hs" and "hs dvd es"
    and "t3_d2 x = nat es"
    and "bij_betw p {..<t3_d1 x} {..<t3_d1 x}"
  shows "\<exists>L L'. forward_locals kn x None = Inr L
     \<and> forward_locals kn (permute_seq p x) None = Inr L'
     \<and> forward kn x None = Inr (l_out L)
     \<and> forward kn (permute_seq p x) None = Inr (l_out L')
     \<and> (\<forall>i s c. i < t3_d0 x \<and> s < t3_d1 x \<longrightarrow>
           t3_at (l_out L') i s c = t3_at (l_out L) i (p s) c)
     \<and> (\<forall>i h s u. i < t3_d0 x \<and> h < nat hs \<and> s < t3_d1 x \<and> u < t3_d1 x \<longrightarrow>
           t4_at (l_attn_weights L') i h s u = t4_at (l_attn_weights L) i h (p s) (p u))"
proof -
  obtain H D :: nat where HD: "0 < H" "0 < D" "es = int (H * D)" "hs = int H"
    "H = nat hs" "D = nat (es div hs)"
    by (rule valid_config_nat [OF assms(2-4)])
  have init: "SelfAttention_init (int (H * D)) (int H) iv = Inr kn"
    using assms(1) HD(3,4) by simp
  have E: "nat es = H * D" unfolding HD(3) by (rule nat_int)
  define S where "S = t3_d1 x"
  define B where "B = t3_d0 x"
  let ?x' = "permute_seq p x"
  have xd: "t3_d2 x = H * D" using assms(5) E by simp
  have xd': "t3_d2 ?x' = H * D" using xd by (simp add: permute_seq_dims)
  have mk: "mask_fits m (t3_d0 x) H (t3_d1 x) (t3_d1 x)" if "None = Some m" for m
    using that by simp
  have mk': "mask_fits m (t3_d0 ?x') H (t3_d1 ?x') (t3_d1 ?x')" if "None = Some m" for m
    using that by simp
  have bij: "bij_betw p {..<S} {..<S}" using assms(6) by (simp add: S_def)
  have pS: "p s < S" if "s < S" for s
    using bij that by (auto simp: bij_betw_def)
  have reidx: "(\<Sum>w<S. g (p w)) = (\<Sum>w<S. g w)" for g :: "nat \<Rightarrow> real"
    by (rule sum.reindex_bij_betw [OF bij])
  show ?thesis
  proof (rule forward_locals_valid [OF init HD(1,2) xd mk])
    fix L y
    assume L: "forward_locals kn x None = Inr L"
      and Ly: "Linear_apply (to_qkv kn) x = Inr y"
      and qa: "\<And>i h s d. \<lbrakk>s < t3_d1 x; h < H; d < D\<rbrakk> \<Longrightarrow>
          t4_at (l_q L) i h s d = t3_at y i s (h * D + d)"
      and ka: "\<And>i h s d. \<lbrakk>s < t3_d1 x; h < H; d < D\<rbrakk> \<Longrightarrow>
          t4_at (l_k L) i h s d = t3_at y i s (H * D + (h * D + d))"
      and va: "\<And>i h s d. \<lbrakk>s < t3_d1 x; h < H; d < D\<rbrakk> \<Longrightarrow>
          t4_at (l_v L) i h s d = t3_at y i s (2 * (H * D) + (h * D + d))"
      and sd: "t4_d0 (l_scores L) = t3_d0 x \<and> t4_d1 (l_scores L) = H \<and>
               t4_d2 (l_scores L) = t3_d1 x \<and> t4_d3 (l_scores L) = t3_d1 x"
      and sa: "\<And>i h s u. \<lbrakk>i < t3_d0 x; h < H; s < t3_d1 x; u < t3_d1 x\<rbrakk> \<Longrightarrow>
          t4_at (l_scores L) i h s u =
            (if (case None of None \<Rightarrow> False | Some m \<Rightarrow> forbidden m i h s u) then - 1000000000
             else (\<Sum>c<D. t4_at (l_q L) i h s c * t4_at (l_k L) i h u c) * (real D powr (- (1 / 2))))"
      and aw: "l_attn_weights L = softmax (l_scores L)"
      and ca: "\<And>i h s d. \<lbrakk>i < t3_d0 x; h < H\<rbrakk> \<Longrightarrow>
          t4_at (l_context L) i h s d =
            (\<Sum>c<t3_d1 x. t4_at (l_attn_weights L) i h s c * t4_at (l_v L) i h c d)"
      and oa: "\<And>i s c. s < t3_d1 x \<Longrightarrow>
          t3_at (l_out L) i s c =
            (\<Sum>e<H * D. t4_at (l_context L) i (e div D) s (e mod D) * weight (to_out kn) c e)
            + bias (to_out kn) c"
    show ?thesis
    proof (rule forward_locals_valid [OF init HD(1,2) xd' mk'])
      fix L' y'
      assume L': "forward_locals kn ?x' None = Inr L'"
        and Ly': "Linear_apply (to_qkv kn) ?x' = Inr y'"
        and qa': "\<And>i h s d. \<lbrakk>s < t3_d1 ?x'; h < H; d < D\<rbrakk> \<Longrightarrow>
            t4_at (l_q L') i h s d = t3_at y' i s (h * D + d)"
        and ka': "\<And>i h s d. \<lbrakk>s < t3_d1 ?x'; h < H; d < D\<rbrakk> \<Longrightarrow>
            t4_at (l_k L') i h s d = t3_at y' i s (H * D + (h * D + d))"
        and va': "\<And>i h s d. \<lbrakk>s < t3_d1 ?x'; h < H; d < D\<rbrakk> \<Longrightarrow>
            t4_at (l_v L') i h s d = t3_at y' i s (2 * (H * D) + (h * D + d))"
        and sd': "t4_d0 (l_scores L') = t3_d0 ?x' \<and> t4_d1 (l_scores L') = H \<and>
                 t4_d2 (l_scores L') = t3_d1 ?x' \<and> t4_d3 (l_scores L') = t3_d1 ?x'"
        and sa': "\<And>i h s u. \<lbrakk>i < t3_d0 ?x'; h < H; s < t3_d1 ?x'; u < t3_d1 ?x'\<rbrakk> \<Longrightarrow>
            t4_at (l_scores L') i h s u =
              (if (case None of None \<Rightarrow> False | Some m \<Rightarrow> forbidden m i h s u) then - 1000000000
               else (\<Sum>c<D. t4_at (l_q L') i h s c * t4_at (l_k L') i h u c) * (real D powr (- (1 / 2))))"
        and aw': "l_attn_weights L' = softmax (l_scores L')"
        and ca': "\<And>i h s d. \<lbrakk>i < t3_d0 ?x'; h < H\<rbrakk> \<Longrightarrow>
            t4_at (l_context L') i h s d =
              (\<Sum>c<t3_d1 ?x'. t4_at (l_attn_weights L') i h s c * t4_at (l_v L') i h c d)"
        and oa': "\<And>i s c. s < t3_d1 ?x' \<Longrightarrow>
            t3_at (l_out L') i s c =
              (\<Sum>e<H * D. t4_at (l_context L') i (e div D) s (e mod D) * weight (to_out kn) c e)
              + bias (to_out kn) c"
      have yy: "t3_at y' i s c = t3_at y i (p s) c" for i s c
        by (simp add: Linear_apply_at [OF Ly] Linear_apply_at [OF Ly'] permute_seq_def)
      have q: "t4_at (l_q L') i h s d = t4_at (l_q L) i h (p s) d"
        if "s < S" "h < H" "d < D" for i h s d
        using qa' [of s h d i] qa [of "p s" h d i] that pS [of s]
        by (simp add: permute_seq_dims S_def yy)
      have k: "t4_at (l_k L') i h s d = t4_at (l_k L) i h (p s) d"
        if "s < S" "h < H" "d < D" for i h s d
        using ka' [of s h d i] ka [of "p s" h d i] that pS [of s]
        by (simp add: permute_seq_dims S_def yy)
      have v: "t4_at (l_v L') i h s d = t4_at (l_v L) i h (p s) d"
        if "s < S" "h < H" "d < D" for i h s d
        using va' [of s h d i] va [of "p s" h d i] that pS [of s]
        by (simp add: permute_seq_dims S_def yy)
      have sc: "t4_at (l_scores L') i h s u = t4_at (l_scores L) i h (p s) (p u)"
        if "i < B" "h < H" "s < S" "u < S" for i h s u
      proof -
        have "(\<Sum>c<D. t4_at (l_q L') i h s c * t4_at (l_k L') i h u c)
            = (\<Sum>c<D. t4_at (l_q L) i h (p s) c * t4_at (l_k L) i h (p u) c)"
          by (rule sum.cong) (use that in \<open>simp_all add: q k\<close>)
        then show ?thesis
          using sa' [of i h s u] sa [of i h "p s" "p u"] that pS [of s] pS [of u]
          by (simp add: permute_seq_dims S_def B_def)
      qed
      have at: "t4_at (l_attn_weights L') i h s u = t4_at (l_attn_weights L) i h (p s) (p u)"
        if "i < B" "h < H" "s < S" "u < S" for i h s u
      proof -
        have "(\<Sum>w<S. exp (t4_at (l_scores L') i h s w))
            = (\<Sum>w<S. exp (t4_at (l_scores L) i h (p s) (p w)))"
          by (rule sum.cong) (use that in \<open>simp_all add: sc\<close>)
        also have "\<dots> = (\<Sum>w<S. exp (t4_at (l_scores L) i h (p s) w))"
          by (rule reidx)
        finally show ?thesis
          using sd sd' that by (simp add: aw aw' softmax_at permute_seq_dims S_def sc)
      qed
      have cx: "t4_at (l_context L') i h s d = t4_at (l_context L) i h (p s) d"
        if "i < B" "h < H" "s < S" "d < D" for i h s d
      proof -
        have "t4_at (l_context L') i h s d
            = (\<Sum>c<S. t4_at (l_attn_weights L') i h s c * t4_at (l_v L') i h c d)"
          using ca' [of i h s d] that by (simp add: permute_seq_dims S_def B_def)
        also have "\<dots> = (\<Sum>c<S. t4_at (l_attn_weights L) i h (p s) (p c) * t4_at (l_v L) i h (p c) d)"
          by (rule sum.cong) (use that in \<open>simp_all add: at v\<close>)
        also have "\<dots> = (\<Sum>c<S. t4_at (l_attn_weights L) i h (p s) c * t4_at (l_v L) i h c d)"
          by (rule reidx)
        also have "\<dots> = t4_at (l_context L) i h (p s) d"
          using ca [of i h "p s" d] that by (simp add: S_def B_def)
        finally show ?thesis .
      qed
      have out: "t3_at (l_out L') i s c = t3_at (l_out L) i (p s) c"
        if "i < B" "s < S" for i s c
      proof -
        have "(\<Sum>e<H * D. t4_at (l_context L') i (e div D) s (e mod D) * weight (to_out kn) c e)
            = (\<Sum>e<H * D. t4_at (l_context L) i (e div D) (p s) (e mod D) * weight (to_out kn) c e)"
        proof (rule sum.cong)
          fix e assume "e \<in> {..<H * D}"
          then have "e div D < H" "e mod D < D"
            using HD(2) by (simp_all add: less_mult_imp_div_less)
          then show "t4_at (l_context L') i (e div D) s (e mod D) * weight (to_out kn) c e
              = t4_at (l_context L) i (e div D) (p s) (e mod D) * weight (to_out kn) c e"
            using that by (simp add: cx)
        qed simp
        then show ?thesis
          using oa' [of s i c] oa [of "p s" i c] that pS [of s]
          by (simp add: permute_seq_dims S_def)
      qed
      have F: "forward kn x None = Inr (l_out L)" by (simp add: forward_def L)
      have F': "forward kn ?x' None = Inr (l_out L')" by (simp add: forward_def L')
      show ?thesis
        using out at
        by (intro exI [of _ L] exI [of _ L'] conjI allI impI)
           (simp_all add: L L' F F' B_def S_def HD(5))
    qed
  qed
qed


text \<open>
  The theorem at \<^verbatim>\<open>SelfAttention(8, 2)\<close>, an input of shape \<open>(1, 3, 8)\<close> whose entries
  are the position, and the transposition of positions 0 and 1.
\<close>

theorem permutation_equivariance_witness:
  "\<exists>L L'. forward_locals kn_8_2 x_ramp None = Inr L
     \<and> forward_locals kn_8_2 (permute_seq swap01 x_ramp) None = Inr L'
     \<and> t3_at (l_out L') 0 0 5 = t3_at (l_out L) 0 1 5
     \<and> t4_at (l_attn_weights L') 0 1 0 2 = t4_at (l_attn_weights L) 0 1 1 2"
proof -
  have "\<exists>L L'. forward_locals kn_8_2 x_ramp None = Inr L
     \<and> forward_locals kn_8_2 (permute_seq swap01 x_ramp) None = Inr L'
     \<and> forward kn_8_2 x_ramp None = Inr (l_out L)
     \<and> forward kn_8_2 (permute_seq swap01 x_ramp) None = Inr (l_out L')
     \<and> (\<forall>i s c. i < t3_d0 x_ramp \<and> s < t3_d1 x_ramp \<longrightarrow>
           t3_at (l_out L') i s c = t3_at (l_out L) i (swap01 s) c)
     \<and> (\<forall>i h s u. i < t3_d0 x_ramp \<and> h < nat 2 \<and> s < t3_d1 x_ramp \<and> u < t3_d1 x_ramp \<longrightarrow>
           t4_at (l_attn_weights L') i h s u
             = t4_at (l_attn_weights L) i h (swap01 s) (swap01 u))"
    by (rule permutation_equivariance [OF init_kn_8_2])
       (simp_all add: x_ramp_dims swap01_bij)
  then obtain L L' where L: "forward_locals kn_8_2 x_ramp None = Inr L"
    and L': "forward_locals kn_8_2 (permute_seq swap01 x_ramp) None = Inr L'"
    and o: "\<forall>i s c. i < t3_d0 x_ramp \<and> s < t3_d1 x_ramp \<longrightarrow>
           t3_at (l_out L') i s c = t3_at (l_out L) i (swap01 s) c"
    and a: "\<forall>i h s u. i < t3_d0 x_ramp \<and> h < nat 2 \<and> s < t3_d1 x_ramp \<and> u < t3_d1 x_ramp \<longrightarrow>
           t4_at (l_attn_weights L') i h s u
             = t4_at (l_attn_weights L) i h (swap01 s) (swap01 u)"
    by blast
  have "t3_at (l_out L') 0 0 5 = t3_at (l_out L) 0 1 5"
    using o [rule_format, of 0 0 5] by (simp add: x_ramp_dims swap01_def)
  moreover have "t4_at (l_attn_weights L') 0 1 0 2 = t4_at (l_attn_weights L) 0 1 1 2"
    using a [rule_format, of 0 1 0 2] by (simp add: x_ramp_dims swap01_def)
  ultimately show ?thesis using L L' by blast
qed

subsection \<open>Masking\<close>

text \<open>
  For a mask shared by all batch elements, the position that \<^verbatim>\<open>masked_fill\<close> reads is
  the position that the specification names.
\<close>

lemma shared_mask_forbidden:
  "shared_mask mk \<Longrightarrow> forbidden (mask_tensor mk) i h s u \<longleftrightarrow> spec_forbidden mk i s u"
  by (cases mk) (simp_all add: forbidden_def bidx_def)

lemma Linear_abs_nonneg: "0 \<le> Linear_abs l x i j c"
  by (simp add: Linear_abs_def sum_nonneg)

lemma rounding_allowance_nonneg: "0 \<le> rounding_allowance kn x i h s u"
  unfolding rounding_allowance_def dot_abs_def
  by (intro mult_nonneg_nonneg divide_nonneg_nonneg sum_nonneg Linear_abs_nonneg) simp_all

lemma exp_margin_small: "2 ^ 22 * exp (- 200 :: real) \<le> 1 / 1000000"
proof -
  have "(2::real) \<le> exp 1" using exp_ge_add_one_self [of "1::real"] by simp
  then have "(2::real) ^ 200 \<le> exp 1 ^ 200" by (rule power_mono) simp
  also have "\<dots> = exp (200 :: real)" using exp_of_nat_mult [of 200 "1::real"] by simp
  finally have a: "(2::real) ^ 200 \<le> exp 200" .
  have "(2::real) ^ 22 * 1000000 \<le> 2 ^ 200" by simp
  with a have "(2::real) ^ 22 * 1000000 \<le> exp 200" by linarith
  then have "(2::real) ^ 22 / exp 200 \<le> 1 / 1000000"
    by (simp add: field_simps)
  then show ?thesis by (simp add: exp_minus field_simps)
qed

text \<open>
  Claim C3, as amended. With a mask shared by all batch elements, of shape \<open>(S, S)\<close> or
  \<open>(1, S, S)\<close>, every score at a forbidden position is the sentinel \<open>-10\<^sup>9\<close> when the softmax
  is taken. The weight on the forbidden keys of a row is at most \<open>10\<^sup>-\<^sup>6\<close> when the numbers
  that enter the scores of the row at its allowed keys stay in range and the row has an
  allowed key whose score is above the sentinel by at least 200 plus the rounding
  allowance.
\<close>

theorem forbidden_mass_bound:
  assumes "SelfAttention_init es hs iv = Inr kn" and "0 < es" and "0 < hs" and "hs dvd es"
    and "t3_d2 x = nat es"
    and "shared_mask mk"
    and "mask_fits (mask_tensor mk) (t3_d0 x) (nat hs) (t3_d1 x) (t3_d1 x)"
    and "i < t3_d0 x" and "h < nat hs" and "s < t3_d1 x"
  shows "\<exists>L. forward_locals kn x (Some (mask_tensor mk)) = Inr L
     \<and> (\<forall>u<t3_d1 x. spec_forbidden mk i s u \<longrightarrow> t4_at (l_scores L) i h s u = - 1000000000)
     \<and> (\<forall>u0<t3_d1 x.
           \<not> spec_forbidden mk i s u0 \<and> scores_in_range kn x mk i h s
           \<and> clear_of_sentinel kn x L i h s u0
           \<longrightarrow> forbidden_mass mk L i h s \<le> 1 / 1000000)"
proof -
  obtain H D :: nat where HD: "0 < H" "0 < D" "es = int (H * D)" "hs = int H"
    "H = nat hs" "D = nat (es div hs)"
    by (rule valid_config_nat [OF assms(2-4)])
  have init: "SelfAttention_init (int (H * D)) (int H) iv = Inr kn"
    using assms(1) HD(3,4) by simp
  have E: "nat es = H * D" unfolding HD(3) by (rule nat_int)
  have xd: "t3_d2 x = H * D" using assms(5) E by simp
  have mk: "mask_fits m' (t3_d0 x) H (t3_d1 x) (t3_d1 x)" if "Some (mask_tensor mk) = Some m'" for m'
    using assms(7) that HD(5) by auto
  have hH: "h < H" using assms(9) HD(5) by simp
  show ?thesis
  proof (rule forward_locals_valid [OF init HD(1,2) xd mk])
    fix L y
    assume L: "forward_locals kn x (Some (mask_tensor mk)) = Inr L"
      and sd: "t4_d0 (l_scores L) = t3_d0 x \<and> t4_d1 (l_scores L) = H \<and>
               t4_d2 (l_scores L) = t3_d1 x \<and> t4_d3 (l_scores L) = t3_d1 x"
      and sa: "\<And>i h s u. \<lbrakk>i < t3_d0 x; h < H; s < t3_d1 x; u < t3_d1 x\<rbrakk> \<Longrightarrow>
        t4_at (l_scores L) i h s u =
          (if (case Some (mask_tensor mk) of None \<Rightarrow> False | Some m \<Rightarrow> forbidden m i h s u)
           then - 1000000000
           else (\<Sum>c<D. t4_at (l_q L) i h s c * t4_at (l_k L) i h u c) * (real D powr (- (1 / 2))))"
      and aw: "l_attn_weights L = softmax (l_scores L)"
    have sent: "t4_at (l_scores L) i h s u = - 1000000000"
      if "u < t3_d1 x" "spec_forbidden mk i s u" for u
      using sa [OF assms(8) hH assms(10) that(1)] that(2)
      by (simp add: shared_mask_forbidden [OF assms(6)])
    define F where "F = {u. u < t3_d1 x \<and> spec_forbidden mk i s u}"
    have finF: "finite F" by (simp add: F_def)
    have mass: "forbidden_mass mk L i h s = (\<Sum>u\<in>F. t4_at (softmax (l_scores L)) i h s u)"
      unfolding forbidden_mass_def F_def using sd by (simp add: aw softmax_dims)
    have bound: "forbidden_mass mk L i h s \<le> 1 / 1000000"
      if u0: "u0 < t3_d1 x" and rng: "scores_in_range kn x mk i h s"
        and clr: "clear_of_sentinel kn x L i h s u0"
      for u0
    proof -
      define c where "c = t4_at (l_scores L) i h s u0"
      have cge: "- 1000000000 + 200 \<le> c"
        using clr rounding_allowance_nonneg [of kn x i h s u0]
        by (simp add: clear_of_sentinel_def c_def)
      have S: "t3_d1 x \<le> 2 ^ 22"
        using rng by (simp add: scores_in_range_def sizes_in_range_def)
      have "card F \<le> card {..<t3_d1 x}"
        by (rule card_mono) (auto simp: F_def)
      then have "card F \<le> 2 ^ 22" using S by simp
      then have n: "real (card F) \<le> 2 ^ 22"
        by (metis of_nat_le_iff of_nat_numeral of_nat_power)
      have e: "exp (- 1000000000 - c) \<le> exp (- 200)" using cge by simp
      have "real (card F) * exp (- 1000000000 - c) \<le> 2 ^ 22 * exp (- 200)"
        by (rule mult_mono [OF n e]) simp_all
      also have "\<dots> \<le> 1 / 1000000" by (rule exp_margin_small)
      finally have le: "real (card F) * exp (- 1000000000 - t4_at (l_scores L) i h s u0)
                          \<le> 1 / 1000000"
        by (simp add: c_def)
      show ?thesis
        unfolding mass
        by (rule softmax_mass_bound [where c = "- 1000000000" and ?u0.0 = u0])
           (use u0 le sd finF sent in \<open>simp_all add: F_def\<close>)
    qed
    show ?thesis
      using sent bound
      by (intro exI [of _ L] conjI allI impI) (simp_all add: L)
  qed
qed

text \<open>
  The theorem at a kernel with zero weights, an input of shape \<open>(1, 2, 1)\<close> and a mask of
  shape \<open>(2, 2)\<close> that allows key 0 only: the allowed score is 0 and key 1 is forbidden.
\<close>

theorem forbidden_mass_bound_witness:
  "\<exists>L. forward_locals kn_1_1 x_large (Some (mask_tensor key0_only)) = Inr L
     \<and> t4_at (l_scores L) 0 0 0 1 = - 1000000000
     \<and> forbidden_mass key0_only L 0 0 0 \<le> 1 / 1000000"
proof -
  note kf = single_feature_kernel [OF init_kn_1_1]
  from single_feature_locals [OF init_kn_1_1, of x_large "mask_tensor key0_only"]
  obtain L where L: "forward_locals kn_1_1 x_large (Some (mask_tensor key0_only)) = Inr L"
    and qk: "\<forall>i s. s < 2 \<longrightarrow>
          t4_at (l_q L) i 0 s 0 = t3_at x_large i s 0 * qkv_weight iv0 0 0 + qkv_bias iv0 0
          \<and> t4_at (l_k L) i 0 s 0 = t3_at x_large i s 0 * qkv_weight iv0 1 0 + qkv_bias iv0 1"
    and sc: "\<forall>i s u. i < 1 \<and> s < 2 \<and> u < 2 \<longrightarrow>
          t4_at (l_scores L) i 0 s u =
            (if forbidden (mask_tensor key0_only) i 0 s u then - 1000000000
             else (t3_at x_large i s 0 * qkv_weight iv0 0 0 + qkv_bias iv0 0)
                * (t3_at x_large i u 0 * qkv_weight iv0 1 0 + qkv_bias iv0 1))"
    unfolding x_large_dims using key0_only_fits by auto
  have fb: "forbidden (mask_tensor key0_only) i h s u \<longleftrightarrow> spec_forbidden key0_only i s u"
    for i h s u by (rule shared_mask_forbidden [OF key0_only_shared])
  have s00: "t4_at (l_scores L) 0 0 0 0 = 0"
    using sc [rule_format, of 0 0 0] by (simp add: fb key0_only_forbidden bidx_def iv0_def)
  have rng: "scores_in_range kn_1_1 x_large key0_only 0 0 0"
    unfolding scores_in_range_def sizes_in_range_def dot_abs_def kf x_large_dims
    by (simp add: Linear_abs_def iv0_def float_safe_large)
  have clr: "clear_of_sentinel kn_1_1 x_large L 0 0 0 0"
    unfolding clear_of_sentinel_def rounding_allowance_def dot_abs_def kf s00
    by (simp add: Linear_abs_def iv0_def)
  have hyp: "\<not> spec_forbidden key0_only 0 0 0 \<and> scores_in_range kn_1_1 x_large key0_only 0 0 0
        \<and> clear_of_sentinel kn_1_1 x_large L 0 0 0 0"
    using rng clr by (simp add: key0_only_forbidden bidx_def)
  have f1: "spec_forbidden key0_only 0 0 1" by (simp add: key0_only_forbidden bidx_def)
  from forbidden_mass_bound [OF init_kn_1_1, of x_large key0_only 0 0 0]
  obtain L' where L': "forward_locals kn_1_1 x_large (Some (mask_tensor key0_only)) = Inr L'"
    and a: "\<forall>u<t3_d1 x_large. spec_forbidden key0_only 0 0 u \<longrightarrow>
              t4_at (l_scores L') 0 0 0 u = - 1000000000"
    and b: "\<forall>u0<t3_d1 x_large.
           \<not> spec_forbidden key0_only 0 0 u0 \<and> scores_in_range kn_1_1 x_large key0_only 0 0 0
           \<and> clear_of_sentinel kn_1_1 x_large L' 0 0 0 u0
           \<longrightarrow> forbidden_mass key0_only L' 0 0 0 \<le> 1 / 1000000"
    using key0_only_shared key0_only_fits by (auto simp: x_large_dims)
  have LL: "L' = L" using L L' by simp
  have "t4_at (l_scores L) 0 0 0 1 = - 1000000000"
    using a [rule_format, of 1] f1 by (simp add: LL x_large_dims)
  moreover have "forbidden_mass key0_only L 0 0 0 \<le> 1 / 1000000"
    using b [rule_format, of 0] hyp by (simp add: LL x_large_dims)
  ultimately show ?thesis using L by (intro exI [of _ L]) simp
qed

text \<open>
  Claim C3 as stated fails. With query weight 1, key weight \<open>-1\<close> and the embedding
  \<open>10\<^sup>5\<close> at position 0, every number stays in range, the allowed score of query 0 is
  \<open>-10\<^sup>1\<^sup>0\<close>, below the sentinel, and the forbidden key 1 receives more than half of the
  weight.
\<close>

theorem forbidden_mass_exceeds_bound:
  "\<not> isl (forward_locals kn_qk x_large (Some (mask_tensor key0_only)))
     \<and> \<not> spec_forbidden key0_only 0 0 0
     \<and> scores_in_range kn_qk x_large key0_only 0 0 0
     \<and> 1 / 1000000
         < forbidden_mass key0_only
             (projr (forward_locals kn_qk x_large (Some (mask_tensor key0_only)))) 0 0 0"
proof -
  note kf = single_feature_kernel [OF init_kn_qk]
  from single_feature_locals [OF init_kn_qk, of x_large "mask_tensor key0_only"]
  obtain L where L: "forward_locals kn_qk x_large (Some (mask_tensor key0_only)) = Inr L"
    and d: "t4_d3 (l_attn_weights L) = 2"
    and qk: "\<forall>i s. s < 2 \<longrightarrow>
          t4_at (l_q L) i 0 s 0 = t3_at x_large i s 0 * qkv_weight iv_qk 0 0 + qkv_bias iv_qk 0
          \<and> t4_at (l_k L) i 0 s 0 = t3_at x_large i s 0 * qkv_weight iv_qk 1 0 + qkv_bias iv_qk 1"
    and sc: "\<forall>i s u. i < 1 \<and> s < 2 \<and> u < 2 \<longrightarrow>
          t4_at (l_scores L) i 0 s u =
            (if forbidden (mask_tensor key0_only) i 0 s u then - 1000000000
             else (t3_at x_large i s 0 * qkv_weight iv_qk 0 0 + qkv_bias iv_qk 0)
                * (t3_at x_large i u 0 * qkv_weight iv_qk 1 0 + qkv_bias iv_qk 1))"
    unfolding x_large_dims using key0_only_fits by auto
  have fb: "forbidden (mask_tensor key0_only) i h s u \<longleftrightarrow> spec_forbidden key0_only i s u"
    for i h s u by (rule shared_mask_forbidden [OF key0_only_shared])
  have aw: "l_attn_weights L = softmax (l_scores L)" by (rule forward_locals_attn [OF L])
  have d': "t4_d3 (l_scores L) = 2" using d by (simp add: aw softmax_dims)
  have s00: "t4_at (l_scores L) 0 0 0 0 = - 10000000000"
    using sc [rule_format, of 0 0 0]
    by (simp add: fb key0_only_forbidden bidx_def iv_qk_def x_large_def)
  have s01: "t4_at (l_scores L) 0 0 0 (Suc 0) = - 1000000000"
    using sc [rule_format, of 0 0 1] by (simp add: fb key0_only_forbidden bidx_def)
  have rng: "scores_in_range kn_qk x_large key0_only 0 0 0"
    unfolding scores_in_range_def sizes_in_range_def dot_abs_def kf x_large_dims
    by (simp add: Linear_abs_def iv_qk_def x_large_def key0_only_forbidden bidx_def
          float_safe_def)
  have two: "{..<2::nat} = {0, 1}" by auto
  have mass: "forbidden_mass key0_only L 0 0 0
      = exp (- 1000000000) / (exp (- 10000000000) + exp (- 1000000000))"
    unfolding forbidden_mass_def d key0_only_row
    by (simp add: aw softmax_at d' two s00 s01)
  have "exp (- 10000000000 :: real) \<le> exp (- 1000000000)" by simp
  then have "exp (- 10000000000 :: real) + exp (- 1000000000) \<le> 2 * exp (- 1000000000)" by simp
  then have "exp (- 1000000000 :: real) / (2 * exp (- 1000000000))
      \<le> exp (- 1000000000) / (exp (- 10000000000) + exp (- 1000000000))"
    by (intro divide_left_mono) (simp_all add: add_pos_pos)
  then have "1 / 2 \<le> forbidden_mass key0_only L 0 0 0" by (simp add: mass)
  then have "1 / 1000000 < forbidden_mass key0_only L 0 0 0" by simp
  then show ?thesis using rng by (simp add: L key0_only_forbidden bidx_def)
qed

text \<open>
  A mask of shape \<open>(B, S, S)\<close> with \<open>B > 1\<close> is read by head, not by batch element:
  with two batch elements and two heads, the key that the mask forbids to batch element 1
  keeps its score in head 0.
\<close>

lemma per_batch_mask_read_per_head:
  "spec_forbidden per_batch_mask 1 0 1
     \<and> \<not> shared_mask per_batch_mask
     \<and> mask_fits (mask_tensor per_batch_mask) (t3_d0 x_pair) 2 (t3_d1 x_pair) (t3_d1 x_pair)
     \<and> (\<exists>L. forward_locals kn_8_2 x_pair (Some (mask_tensor per_batch_mask)) = Inr L
            \<and> t4_at (l_scores L) 1 0 0 1 = 0)"
proof -
  have init: "SelfAttention_init (int (2 * 4)) (int 2) iv0 = Inr kn_8_2"
    using init_kn_8_2 by simp
  have xd: "t3_d2 x_pair = 2 * 4" by (simp add: x_pair_def)
  have fits: "mask_fits (mask_tensor per_batch_mask) (t3_d0 x_pair) 2 (t3_d1 x_pair) (t3_d1 x_pair)"
    by (simp add: mask_fits_def per_batch_mask_def x_pair_def)
  have mk: "mask_fits m' (t3_d0 x_pair) 2 (t3_d1 x_pair) (t3_d1 x_pair)"
    if "Some (mask_tensor per_batch_mask) = Some m'" for m'
    using fits that by auto
  have nf: "\<not> forbidden (mask_tensor per_batch_mask) 1 0 0 1"
    by (simp add: forbidden_def per_batch_mask_def bidx_def)
  have ex: "\<exists>L. forward_locals kn_8_2 x_pair (Some (mask_tensor per_batch_mask)) = Inr L
            \<and> t4_at (l_scores L) 1 0 0 1 = 0"
  proof (rule forward_locals_valid [OF init _ _ xd mk])
    fix L y
    assume L: "forward_locals kn_8_2 x_pair (Some (mask_tensor per_batch_mask)) = Inr L"
      and Ly: "Linear_apply (to_qkv kn_8_2) x_pair = Inr y"
      and qa: "\<And>i h s d. \<lbrakk>s < t3_d1 x_pair; h < 2; d < 4\<rbrakk> \<Longrightarrow>
        t4_at (l_q L) i h s d = t3_at y i s (h * 4 + d)"
      and sa: "\<And>i h s u. \<lbrakk>i < t3_d0 x_pair; h < 2; s < t3_d1 x_pair; u < t3_d1 x_pair\<rbrakk> \<Longrightarrow>
        t4_at (l_scores L) i h s u =
          (if (case Some (mask_tensor per_batch_mask) of None \<Rightarrow> False
               | Some m \<Rightarrow> forbidden m i h s u) then - 1000000000
           else (\<Sum>c<4. t4_at (l_q L) i h s c * t4_at (l_k L) i h u c) * (real 4 powr (- (1 / 2))))"
    have ya: "t3_at y i j c = 0" for i j c
      using Linear_apply_at [OF Ly, of i j c] by (simp add: kn_8_2_fields iv0_def)
    have q: "t4_at (l_q L) i 0 0 c = 0" if "c < 4" for i c
      using qa [of 0 0 c i] that by (simp add: ya x_pair_def)
    have z: "(\<Sum>c<4. t4_at (l_q L) i 0 0 c * t4_at (l_k L) i 0 u c) = 0" for i u
      by (rule sum.neutral) (simp add: q)
    have "t4_at (l_scores L) 1 0 0 1 = 0"
      using sa [of 1 0 0 1] nf by (simp add: x_pair_def z)
    then show ?thesis using L by (intro exI [of _ L]) simp
  qed simp_all
  have "spec_forbidden per_batch_mask 1 0 1" by (simp add: per_batch_mask_def bidx_def)
  moreover have "\<not> shared_mask per_batch_mask" by (simp add: per_batch_mask_def)
  ultimately show ?thesis using fits ex by blast
qed

subsection \<open>Uniform attention on a row whose keys are all forbidden\<close>

lemma Linear_apply_abs:
  assumes "Linear_apply l x = Inr y"
  shows "\<bar>t3_at y i j c\<bar> \<le> Linear_abs l x i j c"
proof -
  have "\<bar>t3_at y i j c\<bar> \<le> \<bar>\<Sum>e<in_features l. t3_at x i j e * weight l c e\<bar> + \<bar>bias l c\<bar>"
    unfolding Linear_apply_at [OF assms] by (rule abs_triangle_ineq)
  also have "\<dots> \<le> (\<Sum>e<in_features l. \<bar>t3_at x i j e * weight l c e\<bar>) + \<bar>bias l c\<bar>"
    by (intro add_right_mono sum_abs)
  finally show ?thesis by (simp add: Linear_abs_def)
qed

lemma abs_mean_le:
  fixes f :: "nat \<Rightarrow> real"
  assumes "0 < n" and "\<And>c. c < n \<Longrightarrow> \<bar>f c\<bar> \<le> b"
  shows "\<bar>(\<Sum>c<n. f c) / real n\<bar> \<le> b"
proof -
  have "\<bar>\<Sum>c<n. f c\<bar> \<le> (\<Sum>c<n. \<bar>f c\<bar>)" by (rule sum_abs)
  also have "\<dots> \<le> (\<Sum>c<n. b)" by (rule sum_mono) (simp add: assms(2))
  also have "\<dots> = real n * b" by simp
  finally have "\<bar>\<Sum>c<n. f c\<bar> / real n \<le> real n * b / real n"
    by (rule divide_right_mono) simp
  then show ?thesis using assms(1) by simp
qed

text \<open>
  Claim C10, as amended. When a mask that fits the scores forbids every key of the row
  \<open>(i, h, s)\<close>, the forward pass returns: every score of the row is the sentinel \<open>-10\<^sup>9\<close>,
  every attention weight of the row is \<open>1 / S\<close>, and at each component where the value
  vectors stay in range the context of the row is their mean, of absolute value at most
  \<open>float_safe\<close>.
\<close>

theorem all_masked_row_uniform:
  assumes "SelfAttention_init es hs iv = Inr kn" and "0 < es" and "0 < hs" and "hs dvd es"
    and "t3_d2 x = nat es"
    and "mask_fits m (t3_d0 x) (nat hs) (t3_d1 x) (t3_d1 x)"
    and "i < t3_d0 x" and "h < nat hs" and "s < t3_d1 x"
    and "\<forall>u<t3_d1 x. forbidden m i h s u"
  shows "\<exists>L. forward_locals kn x (Some m) = Inr L \<and> forward kn x (Some m) = Inr (l_out L)
     \<and> (\<forall>u<t3_d1 x. t4_at (l_scores L) i h s u = - 1000000000)
     \<and> (\<forall>u<t3_d1 x. t4_at (l_attn_weights L) i h s u = 1 / real (t3_d1 x))
     \<and> (\<forall>d<nat (head_dim kn). values_in_range kn x i h d \<longrightarrow>
           t4_at (l_context L) i h s d = (\<Sum>c<t3_d1 x. t4_at (l_v L) i h c d) / real (t3_d1 x)
           \<and> \<bar>t4_at (l_context L) i h s d\<bar> \<le> float_safe)"
proof -
  obtain H D :: nat where HD: "0 < H" "0 < D" "es = int (H * D)" "hs = int H"
    "H = nat hs" "D = nat (es div hs)"
    by (rule valid_config_nat [OF assms(2-4)])
  have init: "SelfAttention_init (int (H * D)) (int H) iv = Inr kn"
    using assms(1) HD(3,4) by simp
  have E: "nat es = H * D" unfolding HD(3) by (rule nat_int)
  have xd: "t3_d2 x = H * D" using assms(5) E by simp
  have mk: "mask_fits m' (t3_d0 x) H (t3_d1 x) (t3_d1 x)" if "Some m = Some m'" for m'
    using assms(6) that HD(5) by simp
  have hH: "h < H" using assms(8) HD(5) by simp
  have kd: "nat (head_dim kn) = D" and ke: "nat (embed_size kn) = H * D"
    using init_InrD [OF assms(1)] HD(6) E by simp_all
  show ?thesis
  proof (rule forward_locals_valid [OF init HD(1,2) xd mk])
    fix L y
    assume L: "forward_locals kn x (Some m) = Inr L"
      and Ly: "Linear_apply (to_qkv kn) x = Inr y"
      and va: "\<And>i h s d. \<lbrakk>s < t3_d1 x; h < H; d < D\<rbrakk> \<Longrightarrow>
        t4_at (l_v L) i h s d = t3_at y i s (2 * (H * D) + (h * D + d))"
      and sd: "t4_d0 (l_scores L) = t3_d0 x \<and> t4_d1 (l_scores L) = H \<and>
               t4_d2 (l_scores L) = t3_d1 x \<and> t4_d3 (l_scores L) = t3_d1 x"
      and sa: "\<And>i h s u. \<lbrakk>i < t3_d0 x; h < H; s < t3_d1 x; u < t3_d1 x\<rbrakk> \<Longrightarrow>
        t4_at (l_scores L) i h s u =
          (if (case Some m of None \<Rightarrow> False | Some m \<Rightarrow> forbidden m i h s u) then - 1000000000
           else (\<Sum>c<D. t4_at (l_q L) i h s c * t4_at (l_k L) i h u c) * (real D powr (- (1 / 2))))"
      and aw: "l_attn_weights L = softmax (l_scores L)"
      and ca: "\<And>i h s d. \<lbrakk>i < t3_d0 x; h < H\<rbrakk> \<Longrightarrow>
        t4_at (l_context L) i h s d =
          (\<Sum>c<t3_d1 x. t4_at (l_attn_weights L) i h s c * t4_at (l_v L) i h c d)"
    have F: "forward kn x (Some m) = Inr (l_out L)" by (simp add: forward_def L)
    have sc: "t4_at (l_scores L) i h s u = - 1000000000" if "u < t3_d1 x" for u
      using sa [OF assms(7) hH assms(9) that] assms(10) that by simp
    have at: "t4_at (l_attn_weights L) i h s u = 1 / real (t3_d1 x)" if "u < t3_d1 x" for u
    proof -
      have "t4_at (softmax (l_scores L)) i h s u = 1 / real (t4_d3 (l_scores L))"
        by (rule softmax_uniform [where c = "- 1000000000"]) (use sc sd that in simp_all)
      then show ?thesis using sd by (simp add: aw)
    qed
    have cx: "t4_at (l_context L) i h s d
                = (\<Sum>c<t3_d1 x. t4_at (l_v L) i h c d) / real (t3_d1 x)" for d
    proof -
      have "t4_at (l_context L) i h s d
              = (\<Sum>c<t3_d1 x. t4_at (l_attn_weights L) i h s c * t4_at (l_v L) i h c d)"
        by (rule ca [OF assms(7) hH])
      also have "\<dots> = (\<Sum>c<t3_d1 x. t4_at (l_v L) i h c d / real (t3_d1 x))"
        by (rule sum.cong) (simp_all add: at)
      also have "\<dots> = (\<Sum>c<t3_d1 x. t4_at (l_v L) i h c d) / real (t3_d1 x)"
        by (simp only: sum_divide_distrib)
      finally show ?thesis .
    qed
    have cb: "\<bar>t4_at (l_context L) i h s d\<bar> \<le> float_safe"
      if d: "d < D" and r: "values_in_range kn x i h d" for d
      unfolding cx
    proof (rule abs_mean_le)
      show "0 < t3_d1 x" using assms(9) by simp
      fix c assume c: "c < t3_d1 x"
      have "\<bar>t4_at (l_v L) i h c d\<bar>
              \<le> Linear_abs (to_qkv kn) x i c (2 * (H * D) + (h * D + d))"
        unfolding va [OF c hH d] by (rule Linear_apply_abs [OF Ly])
      also have "\<dots> \<le> float_safe"
        using r c unfolding values_in_range_def kd ke by simp
      finally show "\<bar>t4_at (l_v L) i h c d\<bar> \<le> float_safe" .
    qed
    have cm: "\<forall>d<nat (head_dim kn). values_in_range kn x i h d \<longrightarrow>
           t4_at (l_context L) i h s d = (\<Sum>c<t3_d1 x. t4_at (l_v L) i h c d) / real (t3_d1 x)
           \<and> \<bar>t4_at (l_context L) i h s d\<bar> \<le> float_safe"
      unfolding kd by (intro allI impI conjI cx cb; assumption)
    show ?thesis
      by (intro exI [of _ L] conjI cm) (simp_all add: L F sc at)
  qed
qed

text \<open>
  The theorem at \<^verbatim>\<open>SelfAttention(8, 2)\<close>, an input of shape \<open>(1, 3, 8)\<close> and a mask
  that forbids every key to query 0.
\<close>

theorem all_masked_row_uniform_witness:
  "\<exists>L. forward_locals kn_8_2 x_ones (Some mask_row0_forbidden) = Inr L
     \<and> t4_at (l_scores L) 0 1 0 2 = - 1000000000
     \<and> t4_at (l_attn_weights L) 0 1 0 2 = 1 / 3
     \<and> t4_at (l_context L) 0 1 0 0
         = (t4_at (l_v L) 0 1 0 0 + t4_at (l_v L) 0 1 1 0 + t4_at (l_v L) 0 1 2 0) / 3
     \<and> \<bar>t4_at (l_context L) 0 1 0 0\<bar> \<le> float_safe"
proof -
  have "\<exists>L. forward_locals kn_8_2 x_ones (Some mask_row0_forbidden) = Inr L
     \<and> forward kn_8_2 x_ones (Some mask_row0_forbidden) = Inr (l_out L)
     \<and> (\<forall>u<t3_d1 x_ones. t4_at (l_scores L) 0 1 0 u = - 1000000000)
     \<and> (\<forall>u<t3_d1 x_ones. t4_at (l_attn_weights L) 0 1 0 u = 1 / real (t3_d1 x_ones))
     \<and> (\<forall>d<nat (head_dim kn_8_2). values_in_range kn_8_2 x_ones 0 1 d \<longrightarrow>
           t4_at (l_context L) 0 1 0 d
             = (\<Sum>c<t3_d1 x_ones. t4_at (l_v L) 0 1 c d) / real (t3_d1 x_ones)
           \<and> \<bar>t4_at (l_context L) 0 1 0 d\<bar> \<le> float_safe)"
    by (rule all_masked_row_uniform [OF init_kn_8_2])
       (simp_all add: x_ones_dims mask_row0_fits mask_row0_forbidden_row)
  then obtain L where L: "forward_locals kn_8_2 x_ones (Some mask_row0_forbidden) = Inr L"
    and s: "\<forall>u<3. t4_at (l_scores L) 0 1 0 u = - 1000000000"
    and a: "\<forall>u<3. t4_at (l_attn_weights L) 0 1 0 u = 1 / 3"
    and c: "\<forall>d<4. t4_at (l_context L) 0 1 0 d = (\<Sum>c<3. t4_at (l_v L) 0 1 c d) / 3
           \<and> \<bar>t4_at (l_context L) 0 1 0 d\<bar> \<le> float_safe"
    unfolding x_ones_dims kn_8_2_fields by (auto simp: x_ones_values_in_range)
  have "t4_at (l_context L) 0 1 0 0
          = (t4_at (l_v L) 0 1 0 0 + t4_at (l_v L) 0 1 1 0 + t4_at (l_v L) 0 1 2 0) / 3"
    using c [rule_format, of 0] by (simp add: lessThan_3)
  moreover have "\<bar>t4_at (l_context L) 0 1 0 0\<bar> \<le> float_safe"
    using c [rule_format, of 0] by simp
  ultimately show ?thesis using L s a by (intro exI [of _ L]) simp
qed

text \<open>
  Claim C10 as stated fails: a mask of shape \<open>(3, 3, 3)\<close> that forbids every key, passed
  with three batch elements to a kernel of two heads, cannot be broadcast against the
  scores of shape \<open>(3, 2, 3, 3)\<close>, and the call raises \<^verbatim>\<open>RuntimeError\<close>.
\<close>

theorem fully_forbidden_mask_rejected:
  "spec_forbidden all_zero3 0 0 0 \<and> spec_forbidden all_zero3 0 0 1 \<and> spec_forbidden all_zero3 0 0 2
     \<and> forbidden (mask_tensor all_zero3) 0 0 0 0 \<and> forbidden (mask_tensor all_zero3) 0 0 0 1
     \<and> forbidden (mask_tensor all_zero3) 0 0 0 2
     \<and> t3_d1 x_three = 3
     \<and> forward kn_8_2 x_three (Some (mask_tensor all_zero3)) = Inl RuntimeError"
proof -
  have "forward kn_8_2 x_three (Some (mask_tensor all_zero3)) = Inl RuntimeError"
    by (rule forward_raises_RuntimeError [OF init_kn_8_2])
       (simp add: broadcastable_def all_zero3_def x_three_def bdim_def)
  then show ?thesis
    by (simp add: all_zero3_def forbidden_def x_three_def)
qed

end
